theory Spec2Isabelle
  imports Main
begin

section \<open>Data model\<close>

text \<open>
  The mock server of \<^verbatim>\<open>src/app/services/server.service.ts\<close>. JavaScript strings are
  modelled as \<^typ>\<open>string\<close> (a character is a byte); a property that may be
  \<^verbatim>\<open>undefined\<close> is an \<^typ>\<open>string option\<close>. A thrown JavaScript error carries the two
  properties the catch blocks of the source inspect: \<^verbatim>\<open>code\<close> and \<^verbatim>\<open>message\<close>.
\<close>

datatype js_error = JsError (code: "string option") (message: string)

text \<open>\<^verbatim>\<open>Partial<HeaderType>\<close>: both properties may be missing.\<close>

record header =
  key :: "string option"
  val :: "string option"

text \<open>
  The response object of the HTTP framework: the status code, the header store, the
  payload handed to \<^verbatim>\<open>res.send\<close> / \<^verbatim>\<open>res.json\<close>, and whether the response was
  ended. The runtime keeps a header under its lower-cased name, so the store is keyed by
  lower-case names. A file read by \<^verbatim>\<open>fs.readFileSync\<close> is a \<^verbatim>\<open>Buffer\<close>; a rendered
  template is a string; \<^verbatim>\<open>res.json\<close> takes a parsed value.
\<close>

datatype 'j payload = Buffer string | Str string | Json 'j

record 'j response =
  status :: int
  res_headers :: "string \<rightharpoonup> string"
  sent :: "'j payload option"
  ended :: bool

text \<open>
  A call on the response either completes with the response as it is now (\<open>Inr\<close>) or
  throws (\<open>Inl\<close>), and then a \<^verbatim>\<open>catch\<close> block sees the response as mutated up to
  the throw. \<open>then_do\<close> is the next statement after a call that did not throw.
\<close>

type_synonym 'j tried = "(js_error \<times> 'j response) + 'j response"

definition res_after :: "'j tried \<Rightarrow> 'j response" where
  "res_after r = (case r of Inl (e, res) \<Rightarrow> res | Inr res \<Rightarrow> res)"

definition then_do :: "'j tried \<Rightarrow> ('j response \<Rightarrow> 'j tried) \<Rightarrow> 'j tried" where
  "then_do t f = (case t of Inl er \<Rightarrow> Inl er | Inr res \<Rightarrow> f res)"

section \<open>String helpers\<close>

text \<open>\<^verbatim>\<open>s.indexOf(sub)\<close>: the first position of \<open>sub\<close> in \<open>s\<close>, or \<open>-1\<close>.\<close>

fun starts_with :: "string \<Rightarrow> string \<Rightarrow> bool" where
  "starts_with s [] = True"
| "starts_with [] (c # sub) = False"
| "starts_with (d # s) (c # sub) = (d = c \<and> starts_with s sub)"

fun indexOf_from :: "string \<Rightarrow> string \<Rightarrow> int \<Rightarrow> int" where
  "indexOf_from [] sub i = (if sub = [] then i else - 1)"
| "indexOf_from (c # s) sub i =
     (if starts_with (c # s) sub then i else indexOf_from s sub (i + 1))"

definition indexOf :: "string \<Rightarrow> string \<Rightarrow> int" where
  "indexOf s sub = indexOf_from s sub 0"

text \<open>\<^verbatim>\<open>s.replace(/ /g, '%20')\<close>.\<close>

definition replace_spaces :: "string \<Rightarrow> string" where
  "replace_spaces s = concat (map (\<lambda>c. if c = CHR '' '' then ''%20'' else [c]) s)"

text \<open>\<^verbatim>\<open>s.split(sep)\<close> for a one-character separator.\<close>

fun split_at :: "char \<Rightarrow> string \<Rightarrow> string \<Rightarrow> string list" where
  "split_at sep acc [] = [rev acc]"
| "split_at sep acc (c # s) =
     (if c = sep then rev acc # split_at sep [] s else split_at sep (c # acc) s)"

definition split :: "string \<Rightarrow> char \<Rightarrow> string list" where
  "split s sep = split_at sep [] s"

text \<open>\<^verbatim>\<open>xs[1]\<close> of a string array, \<^verbatim>\<open>undefined\<close> when the array is shorter.\<close>

definition second :: "string list \<Rightarrow> string option" where
  "second xs = (case xs of x # y # zs \<Rightarrow> Some y | _ \<Rightarrow> None)"

text \<open>\<^verbatim>\<open>s.toLowerCase()\<close> on ASCII, and \<^verbatim>\<open>String(n)\<close> for a length.\<close>

definition ascii_lower :: "char \<Rightarrow> char" where
  "ascii_lower c =
     (let n = (of_char c :: nat) in if 65 \<le> n \<and> n \<le> 90 then char_of (n + 32) else c)"

definition lower :: "string \<Rightarrow> string" where
  "lower s = map ascii_lower s"

fun decimal :: "nat \<Rightarrow> string" where
  "decimal n =
     (if n < 10 then [char_of (48 + n)]
      else decimal (n div 10) @ [char_of (48 + n mod 10)])"

section \<open>Header validity\<close>

text \<open>
  The character class of the regular expression in \<^verbatim>\<open>testHeaderValidity\<close>:
  \<^verbatim>\<open>A-Za-z0-9\<close> and the punctuation \<^verbatim>\<open>- ! # $ % & ' * + . ^ _ ` | ~\<close>.
\<close>

definition token_char :: "char \<Rightarrow> bool" where
  "token_char c \<longleftrightarrow>
     (let n = (of_char c :: nat) in
        (65 \<le> n \<and> n \<le> 90) \<or> (97 \<le> n \<and> n \<le> 122) \<or> (48 \<le> n \<and> n \<le> 57)
        \<or> n \<in> set [45, 33, 35, 36, 37, 38, 39, 42, 43, 46, 94, 95, 96, 124, 126])"

text \<open>
  \<^verbatim>\<open>testHeaderValidity\<close> answers \<^emph>\<open>true\<close> when the name is non-empty and the
  negated character class matches somewhere, that is, when the name is \<^emph>\<open>invalid\<close>.
\<close>

definition testHeaderValidity :: "string \<Rightarrow> bool" where
  "testHeaderValidity headerName \<longleftrightarrow>
     headerName \<noteq> [] \<and> list_ex (\<lambda>c. \<not> token_char c) headerName"

text \<open>JavaScript truthiness of an optional string: defined and not empty.\<close>

definition truthy :: "string option \<Rightarrow> bool" where
  "truthy s = (case s of None \<Rightarrow> False | Some t \<Rightarrow> t \<noteq> [])"

text \<open>
  The string behind a truthy optional string; \<^verbatim>\<open>String(undefined)\<close> otherwise, which
  is what string concatenation of an unassigned variable yields.
\<close>

definition str_of :: "string option \<Rightarrow> string" where
  "str_of s = (case s of None \<Rightarrow> ''undefined'' | Some t \<Rightarrow> t)"

section \<open>Writing a header: the framework's \<^verbatim>\<open>res.set\<close>\<close>

text \<open>
  \<^verbatim>\<open>res.setHeader\<close> of the runtime: it throws on a name that is not an HTTP token and
  on a value holding a character other than a tab, \<^verbatim>\<open>0x20\<close> to \<^verbatim>\<open>0x7e\<close> and
  \<^verbatim>\<open>0x80\<close> to \<^verbatim>\<open>0xff\<close>; otherwise the value replaces whatever the store holds under
  the lower-cased name.
\<close>

definition invalid_header_char :: "char \<Rightarrow> bool" where
  "invalid_header_char c \<longleftrightarrow> (let n = (of_char c :: nat) in n \<noteq> 9 \<and> (n < 32 \<or> n = 127))"

definition setHeader :: "string \<Rightarrow> string \<Rightarrow> 'j response \<Rightarrow> 'j tried" where
  "setHeader name v res =
     (if name = [] \<or> list_ex (\<lambda>c. \<not> token_char c) name then
        Inl (JsError (Some ''ERR_INVALID_HTTP_TOKEN'')
               (''Header name must be a valid HTTP token ['' @ [CHR 0x22] @ name @ [CHR 0x22]
                  @ '']''), res)
      else if list_ex invalid_header_char v then
        Inl (JsError (Some ''ERR_INVALID_CHAR'')
               (''Invalid character in header content ['' @ [CHR 0x22] @ name @ [CHR 0x22]
                  @ '']''), res)
      else Inr (res\<lparr>res_headers := (res_headers res)(lower name \<mapsto> v)\<rparr>))"

text \<open>
  \<^verbatim>\<open>res.set(field, value)\<close> of the framework: for the field \<^verbatim>\<open>Content-Type\<close> (in any
  case) a value without a \<^verbatim>\<open>charset\<close> parameter (the regular expression
  \<^verbatim>\<open>/;\s*charset\s*=/\<close>) gets the charset its mime type has by default appended in
  lower case (\<^verbatim>\<open>UTF-8\<close> for \<^verbatim>\<open>text/\<close>, \<^verbatim>\<open>application/javascript\<close> and
  \<^verbatim>\<open>application/json\<close>, the type being the value up to its first semicolon); then
  \<^verbatim>\<open>setHeader\<close>.
\<close>

definition js_space :: "char \<Rightarrow> bool" where
  "js_space c \<longleftrightarrow> (of_char c :: nat) \<in> set [9, 10, 11, 12, 13, 32, 160]"

definition charset_here :: "string \<Rightarrow> bool" where
  "charset_here s =
     (case s of
        [] \<Rightarrow> False
      | c # r \<Rightarrow>
          c = CHR '';''
          \<and> (let r1 = dropWhile js_space r in
                starts_with r1 ''charset''
                \<and> (case dropWhile js_space (drop 7 r1) of [] \<Rightarrow> False | d # r2 \<Rightarrow> d = CHR ''='')))"

fun has_charset :: "string \<Rightarrow> bool" where
  "has_charset [] = False"
| "has_charset (c # s) = (charset_here (c # s) \<or> has_charset s)"

definition charsets_lookup :: "string \<Rightarrow> string option" where
  "charsets_lookup mimeType =
     (if starts_with mimeType ''text/'' \<or> starts_with mimeType ''application/javascript''
         \<or> starts_with mimeType ''application/json''
      then Some ''UTF-8'' else None)"

definition content_type_value :: "string \<Rightarrow> string" where
  "content_type_value v =
     (if has_charset v then v
      else (case charsets_lookup (takeWhile (\<lambda>c. c \<noteq> CHR '';'') v) of
              None \<Rightarrow> v
            | Some charset \<Rightarrow> v @ ''; charset='' @ lower charset))"

definition res_set :: "string \<Rightarrow> string \<Rightarrow> 'j response \<Rightarrow> 'j tried" where
  "res_set field v res =
     setHeader field (if lower field = ''content-type'' then content_type_value v else v) res"

definition res_status :: "int \<Rightarrow> 'j response \<Rightarrow> 'j response" where
  "res_status c res = res\<lparr>status := c\<rparr>"

definition res_end :: "'j response \<Rightarrow> 'j response" where
  "res_end res = res\<lparr>ended := True\<rparr>"

section \<open>Header application\<close>

text \<open>
  \<^verbatim>\<open>setHeaders\<close>: the \<^verbatim>\<open>forEach\<close> over the header list. The template renderer
  \<^verbatim>\<open>DummyJSONParser\<close> is an external library; it is the parameter \<open>parser\<close>, which either
  returns the rendered string or throws. A throw of the renderer or of \<^verbatim>\<open>res.set\<close>
  leaves the \<^verbatim>\<open>forEach\<close> with the response as mutated so far (\<open>Inl\<close>).
\<close>

fun setHeaders ::
  "(string \<Rightarrow> 'req \<Rightarrow> js_error + string) \<Rightarrow> header list \<Rightarrow> 'req \<Rightarrow> 'j response
     \<Rightarrow> 'j tried" where
  "setHeaders parser [] req res = Inr res"
| "setHeaders parser (h # hs) req res =
     (if truthy (key h) \<and> truthy (val h) \<and> \<not> testHeaderValidity (str_of (key h)) then
        (case parser (str_of (val h)) req of
           Inl e \<Rightarrow> Inl (e, res)
         | Inr v \<Rightarrow> then_do (res_set (str_of (key h)) v res) (setHeaders parser hs req))
      else setHeaders parser hs req res)"

section \<open>Routes and environments\<close>

text \<open>
  \<^verbatim>\<open>RouteType\<close> (declared in \<^verbatim>\<open>src/app/types/route.type\<close>; the fields are the
  ones the service reads) and \<^verbatim>\<open>EnvironmentType\<close>. A number is an \<^typ>\<open>int\<close> or a
  \<^typ>\<open>nat\<close>, a \<^verbatim>\<open>Date\<close> a \<^typ>\<open>nat\<close>, an optional property an option.
\<close>

record route =
  route_method :: string
  endpoint :: string
  statusCode :: int
  latency :: nat
  body :: string
  filePath :: string
  sendFileAsBody :: bool
  headers :: "header list"
  duplicates :: "nat list"

record environment =
  uuid :: string
  running :: bool
  name :: string
  port :: nat
  endpointPrefix :: string
  latency :: nat
  routes :: "route list"
  startedAt :: "nat option"
  modifiedAt :: "nat option"
  needRestart :: "bool option"
  proxyMode :: bool
  proxyHost :: string
  https :: bool
  cors :: bool
  headers :: "header list"
  duplicates :: "nat list"

section \<open>External collaborators\<close>

text \<open>
  The members of the \<^verbatim>\<open>Errors\<close> enumeration the service uses; the message behind
  each one is declared in \<^verbatim>\<open>src/app/enums/errors.enum\<close> and is a parameter here.
\<close>

datatype errors_enum =
  PORT_ALREADY_USED | PORT_INVALID | INVALID_ROUTE_REGEX | FILE_NOT_EXISTS
  | TEMPLATE_PARSE | JSON_PARSE | MISSING_HELPER | INVALID_CONTENT_TYPE

text \<open>
  What a request handler calls outside the service: the template renderer, the JSON
  parser of the runtime, the mime type table (\<^verbatim>\<open>false\<close> is \<open>None\<close>), the file
  system, \<^verbatim>\<open>path.basename\<close>, \<^verbatim>\<open>Utils.getRouteContentType\<close>, the constant
  \<^verbatim>\<open>mimeTypesWithTemplating\<close>, the error messages; and what \<^verbatim>\<open>res.send\<close> and
  \<^verbatim>\<open>res.json\<close> of the framework call in turn: \<open>setCharset\<close> (the content type with
  its charset parameter set to \<^verbatim>\<open>utf-8\<close>; it throws \<^verbatim>\<open>invalid media type\<close> on a
  value it cannot parse), \<open>JSON_stringify\<close> (the text of a value handed to
  \<^verbatim>\<open>res.json\<close>), \<open>etag_fn\<close> (the application's ETag function, if any) and
  \<open>req_fresh\<close> (\<^verbatim>\<open>req.fresh\<close>: whether the request's validators match the response).
\<close>

record ('req, 'j) externals =
  DummyJSONParser :: "string \<Rightarrow> 'req \<Rightarrow> js_error + string"
  JSON_parse :: "string \<Rightarrow> js_error + 'j"
  mimeTypes_lookup :: "string \<Rightarrow> string option"
  readFileSync :: "string \<Rightarrow> js_error + string"
  path_basename :: "string \<Rightarrow> string"
  getRouteContentType :: "environment \<Rightarrow> route \<Rightarrow> string option"
  mimeTypesWithTemplating :: "string list"
  Errors :: "errors_enum \<Rightarrow> string"
  setCharset :: "string \<Rightarrow> js_error + string"
  JSON_stringify :: "'j \<Rightarrow> string"
  etag_fn :: "(string \<Rightarrow> string) option"
  req_fresh :: "'req \<Rightarrow> 'j response \<Rightarrow> bool"

section \<open>Sending: the framework's \<^verbatim>\<open>res.send\<close> and \<^verbatim>\<open>res.json\<close>\<close>

text \<open>
  \<^verbatim>\<open>res.send(chunk)\<close> for a string or a \<^verbatim>\<open>Buffer\<close>, statement by statement:
  \<^item> without a content type, \<^verbatim>\<open>text/html\<close> for a string and
    \<^verbatim>\<open>application/octet-stream\<close> for a \<^verbatim>\<open>Buffer\<close>;
  \<^item> for a string, the content type is written again with its charset set to
    \<^verbatim>\<open>utf-8\<close>;
  \<^item> \<^verbatim>\<open>Content-Length\<close> is set to the length of the chunk;
  \<^item> an \<^verbatim>\<open>ETag\<close> is generated when the response had none and the application has an
    ETag function;
  \<^item> a fresh request turns the status into 304; for the statuses 204 and 304 the headers
    \<^verbatim>\<open>Content-Type\<close>, \<^verbatim>\<open>Content-Length\<close> and \<^verbatim>\<open>Transfer-Encoding\<close> are removed
    and the chunk is emptied;
  \<^item> the response is ended with the chunk (without it for a \<^verbatim>\<open>HEAD\<close> request;
    \<open>sent\<close> records the chunk the response was ended with otherwise).
  The text handed on by \<^verbatim>\<open>res.json\<close> is a string chunk. Headers are only written
  before the response is ended, so the runtime's refusal to set a header after that is
  not part of the model.
\<close>

definition payload_text :: "('req, 'j) externals \<Rightarrow> 'j payload \<Rightarrow> string" where
  "payload_text ext chunk =
     (case chunk of Buffer b \<Rightarrow> b | Str s \<Rightarrow> s | Json j \<Rightarrow> JSON_stringify ext j)"

definition is_buffer :: "'j payload \<Rightarrow> bool" where
  "is_buffer chunk = (case chunk of Buffer b \<Rightarrow> True | Str s \<Rightarrow> False | Json j \<Rightarrow> False)"

definition send_default_type :: "'j payload \<Rightarrow> 'j response \<Rightarrow> 'j tried" where
  "send_default_type chunk res =
     (if \<not> truthy (res_headers res ''content-type'')
      then res_set ''Content-Type''
             (if is_buffer chunk then ''application/octet-stream'' else ''text/html'') res
      else Inr res)"

definition send_charset :: "('req, 'j) externals \<Rightarrow> 'j payload \<Rightarrow> 'j response \<Rightarrow> 'j tried" where
  "send_charset ext chunk res =
     (if is_buffer chunk then Inr res
      else (case res_headers res ''content-type'' of
              None \<Rightarrow> Inr res
            | Some type \<Rightarrow>
                if type = [] then res_set ''Content-Type'' type res
                else (case setCharset ext type of
                        Inl e \<Rightarrow> Inl (e, res)
                      | Inr t \<Rightarrow> res_set ''Content-Type'' t res)))"

definition send_length :: "('req, 'j) externals \<Rightarrow> 'j payload \<Rightarrow> 'j response \<Rightarrow> 'j tried" where
  "send_length ext chunk res =
     res_set ''Content-Length'' (decimal (length (payload_text ext chunk))) res"

definition send_etag ::
  "('req, 'j) externals \<Rightarrow> 'j payload \<Rightarrow> bool \<Rightarrow> 'j response \<Rightarrow> 'j tried" where
  "send_etag ext chunk generateETag res =
     (if generateETag then
        (case etag_fn ext of
           None \<Rightarrow> Inr res
         | Some etagFn \<Rightarrow>
             if etagFn (payload_text ext chunk) \<noteq> []
             then res_set ''ETag'' (etagFn (payload_text ext chunk)) res
             else Inr res)
      else Inr res)"

definition send_finish ::
  "('req, 'j) externals \<Rightarrow> 'req \<Rightarrow> 'j payload \<Rightarrow> 'j response \<Rightarrow> 'j response" where
  "send_finish ext req chunk res =
     (let res1 = (if req_fresh ext req res then res\<lparr>status := 304\<rparr> else res);
          strip = (status res1 = 204 \<or> status res1 = 304);
          res2 = (if strip
                  then res1\<lparr>res_headers :=
                         (res_headers res1)(''content-type'' := None, ''content-length'' := None,
                                            ''transfer-encoding'' := None)\<rparr>
                  else res1)
      in res2\<lparr>sent := Some (if strip then Str [] else chunk), ended := True\<rparr>)"

definition send_tail ::
  "('req, 'j) externals \<Rightarrow> 'req \<Rightarrow> 'j payload \<Rightarrow> 'j response \<Rightarrow> 'j tried" where
  "send_tail ext req chunk res =
     then_do
       (then_do (send_length ext chunk res)
          (send_etag ext chunk (\<not> truthy (res_headers res ''etag''))))
       (\<lambda>r. Inr (send_finish ext req chunk r))"

definition res_send ::
  "('req, 'j) externals \<Rightarrow> 'req \<Rightarrow> 'j payload \<Rightarrow> 'j response \<Rightarrow> 'j tried" where
  "res_send ext req chunk res =
     then_do (then_do (send_default_type chunk res) (send_charset ext chunk))
       (send_tail ext req chunk)"

text \<open>
  \<^verbatim>\<open>res.json(obj)\<close>: \<^verbatim>\<open>application/json\<close> when the response has no content type,
  then \<^verbatim>\<open>res.send\<close> with the text of the value.
\<close>

definition res_json :: "('req, 'j) externals \<Rightarrow> 'req \<Rightarrow> 'j \<Rightarrow> 'j response \<Rightarrow> 'j tried" where
  "res_json ext req obj res =
     then_do
       (if \<not> truthy (res_headers res ''content-type'')
        then res_set ''Content-Type'' ''application/json'' res else Inr res)
       (res_send ext req (Json obj))"

section \<open>The request handler of a route\<close>

text \<open>
  \<^verbatim>\<open>sendError\<close>: the alert when asked for, then the plain-text content type and the
  message as the body. The alerts shown so far are a list, the latest last. (The
  response object knows its request; here the request is passed along.)
\<close>

definition sendError ::
  "('req, 'j) externals \<Rightarrow> 'req \<Rightarrow> 'j response \<Rightarrow> string \<Rightarrow> bool \<Rightarrow> string list
     \<Rightarrow> 'j tried \<times> string list" where
  "sendError ext req res errorMessage showAlert alerts =
     (then_do (res_set ''Content-Type'' ''text/plain'' res) (res_send ext req (Str errorMessage)),
      if showAlert then alerts @ [errorMessage] else alerts)"

text \<open>
  How a request handler leaves the response: it ran to its end, or an error escaped it
  (nothing catches an error thrown in the timer callback, and the response is never
  completed).
\<close>

datatype 'j outcome =
  Completed "'j response" "string list"
  | Uncaught js_error "'j response" "string list"

text \<open>The end of each \<^verbatim>\<open>catch\<close> block: \<^verbatim>\<open>res.end()\<close> unless \<^verbatim>\<open>sendError\<close> threw.\<close>

definition end_catch :: "'j tried \<times> string list \<Rightarrow> 'j outcome" where
  "end_catch r =
     (case r of
        (Inl (e, res), alerts) \<Rightarrow> Uncaught e res alerts
      | (Inr res, alerts) \<Rightarrow> Completed (res_end res) alerts)"

text \<open>\<^verbatim>\<open>String(fileMimeType)\<close>, as \<^verbatim>\<open>res.set\<close> stores it.\<close>

definition mime_string :: "string option \<Rightarrow> string" where
  "mime_string m = (case m of None \<Rightarrow> ''false'' | Some t \<Rightarrow> t)"

text \<open>\<^verbatim>\<open>mimeTypesWithTemplating.indexOf(fileMimeType) > -1\<close>.\<close>

definition with_templating :: "('req, 'j) externals \<Rightarrow> string option \<Rightarrow> bool" where
  "with_templating ext fileMimeType =
     (case fileMimeType of None \<Rightarrow> False | Some t \<Rightarrow> t \<in> set (mimeTypesWithTemplating ext))"

text \<open>
  The content of a file route: the file as read, or, for the mime types of
  \<^verbatim>\<open>mimeTypesWithTemplating\<close>, its text run through the renderer (which may throw).
\<close>

definition file_content ::
  "('req, 'j) externals \<Rightarrow> string option \<Rightarrow> string \<Rightarrow> 'req \<Rightarrow> js_error + 'j payload" where
  "file_content ext fileMimeType buffer req =
     (if with_templating ext fileMimeType
      then (case DummyJSONParser ext buffer req of Inl e \<Rightarrow> Inl e | Inr s \<Rightarrow> Inr (Str s))
      else Inr (Buffer buffer))"

text \<open>The attachment header unless the file is sent as the body, then \<^verbatim>\<open>res.send\<close>.\<close>

definition file_send ::
  "('req, 'j) externals \<Rightarrow> 'req \<Rightarrow> route \<Rightarrow> string \<Rightarrow> 'j payload \<Rightarrow> 'j response \<Rightarrow> 'j tried" where
  "file_send ext req route path fileContent res =
     then_do
       (if \<not> sendFileAsBody route
        then res_set ''Content-Disposition''
               (''attachment; filename='' @ [CHR 0x22] @ path_basename ext path @ [CHR 0x22]) res
        else Inr res)
       (res_send ext req fileContent)"

text \<open>
  The \<^verbatim>\<open>try\<close> block of a file route, from the second statement on. The mime type is
  looked up from the route's \<^verbatim>\<open>filePath\<close> as configured; the file is read at the
  rendered path.
\<close>

definition file_read_send ::
  "('req, 'j) externals \<Rightarrow> 'req \<Rightarrow> route \<Rightarrow> string \<Rightarrow> string option \<Rightarrow> 'j response \<Rightarrow> 'j tried" where
  "file_read_send ext req route path fileMimeType res =
     (case readFileSync ext path of
        Inl e \<Rightarrow> Inl (e, res)
      | Inr buffer \<Rightarrow>
          (case file_content ext fileMimeType buffer req of
             Inl e \<Rightarrow> Inl (e, res)
           | Inr fileContent \<Rightarrow> file_send ext req route path fileContent res))"

definition file_after_path ::
  "('req, 'j) externals \<Rightarrow> string option \<Rightarrow> route \<Rightarrow> 'req \<Rightarrow> string \<Rightarrow> 'j response \<Rightarrow> 'j tried" where
  "file_after_path ext routeContentType route req path res =
     (let fileMimeType = mimeTypes_lookup ext (filePath route) in
      then_do
        (if \<not> truthy routeContentType
         then res_set ''Content-Type'' (mime_string fileMimeType) res else Inr res)
        (file_read_send ext req route path fileMimeType))"

text \<open>
  The whole \<^verbatim>\<open>try\<close> block. A throw also reports the value of the variable
  \<^verbatim>\<open>filePath\<close> at that moment, which the \<^verbatim>\<open>catch\<close> block reads.
\<close>

definition file_try ::
  "('req, 'j) externals \<Rightarrow> string option \<Rightarrow> route \<Rightarrow> 'req \<Rightarrow> 'j response
     \<Rightarrow> (js_error \<times> string option \<times> 'j response) + 'j response" where
  "file_try ext routeContentType route req res =
     (case DummyJSONParser ext (filePath route) req of
        Inl e \<Rightarrow> Inl (e, None, res)
      | Inr path \<Rightarrow>
          (case file_after_path ext routeContentType route req path res of
             Inl (e, r) \<Rightarrow> Inl (e, Some path, r)
           | Inr r \<Rightarrow> Inr r))"

definition file_catch ::
  "('req, 'j) externals \<Rightarrow> 'req \<Rightarrow> js_error \<Rightarrow> string option \<Rightarrow> 'j response \<Rightarrow> string list
     \<Rightarrow> 'j outcome" where
  "file_catch ext req error path res alerts =
     end_catch
       (if code error = Some ''ENOENT'' then
          sendError ext req res (Errors ext FILE_NOT_EXISTS @ str_of path) False alerts
        else if indexOf (message error) ''Parse error'' > - 1 then
          sendError ext req res (Errors ext TEMPLATE_PARSE) False alerts
        else (Inr res, alerts))"

definition serve_file ::
  "('req, 'j) externals \<Rightarrow> string option \<Rightarrow> route \<Rightarrow> 'req \<Rightarrow> 'j response \<Rightarrow> string list
     \<Rightarrow> 'j outcome" where
  "serve_file ext routeContentType route req res alerts =
     (case file_try ext routeContentType route req res of
        Inr r \<Rightarrow> Completed r alerts
      | Inl (error, path, r) \<Rightarrow> file_catch ext req error path r alerts)"

text \<open>The inline body of a route whose content type is \<^verbatim>\<open>application/json\<close>.\<close>

definition json_try :: "('req, 'j) externals \<Rightarrow> route \<Rightarrow> 'req \<Rightarrow> 'j response \<Rightarrow> 'j tried" where
  "json_try ext route req res =
     (case DummyJSONParser ext (body route) req of
        Inl e \<Rightarrow> Inl (e, res)
      | Inr rendered \<Rightarrow>
          (case JSON_parse ext rendered of
             Inl e \<Rightarrow> Inl (e, res)
           | Inr parsed \<Rightarrow> res_json ext req parsed res))"

definition json_catch ::
  "('req, 'j) externals \<Rightarrow> 'req \<Rightarrow> js_error \<Rightarrow> 'j response \<Rightarrow> string list \<Rightarrow> 'j outcome" where
  "json_catch ext req error res alerts =
     end_catch
       (if indexOf (message error) ''Unexpected token'' > - 1
           \<or> indexOf (message error) ''Parse error'' > - 1 then
          sendError ext req res (Errors ext JSON_PARSE) True alerts
        else if indexOf (message error) ''Missing helper'' > - 1 then
          sendError ext req res
            (Errors ext MISSING_HELPER @ str_of (second (split (message error) (CHR 0x22))))
            True alerts
        else (Inr res, alerts))"

definition serve_json ::
  "('req, 'j) externals \<Rightarrow> route \<Rightarrow> 'req \<Rightarrow> 'j response \<Rightarrow> string list \<Rightarrow> 'j outcome" where
  "serve_json ext route req res alerts =
     (case json_try ext route req res of
        Inr r \<Rightarrow> Completed r alerts
      | Inl (error, r) \<Rightarrow> json_catch ext req error r alerts)"

text \<open>The inline body of any other content type.\<close>

definition body_try :: "('req, 'j) externals \<Rightarrow> route \<Rightarrow> 'req \<Rightarrow> 'j response \<Rightarrow> 'j tried" where
  "body_try ext route req res =
     (case DummyJSONParser ext (body route) req of
        Inl e \<Rightarrow> Inl (e, res)
      | Inr rendered \<Rightarrow> res_send ext req (Str rendered) res)"

definition body_catch ::
  "('req, 'j) externals \<Rightarrow> 'req \<Rightarrow> js_error \<Rightarrow> 'j response \<Rightarrow> string list \<Rightarrow> 'j outcome" where
  "body_catch ext req error res alerts =
     end_catch
       (if indexOf (message error) ''invalid media type'' > - 1 then
          sendError ext req res (Errors ext INVALID_CONTENT_TYPE) True alerts
        else (Inr res, alerts))"

definition serve_body ::
  "('req, 'j) externals \<Rightarrow> route \<Rightarrow> 'req \<Rightarrow> 'j response \<Rightarrow> string list \<Rightarrow> 'j outcome" where
  "serve_body ext route req res alerts =
     (case body_try ext route req res of
        Inr r \<Rightarrow> Completed r alerts
      | Inl (error, r) \<Rightarrow> body_catch ext req error r alerts)"

text \<open>
  The callback \<^verbatim>\<open>setRoutes\<close> registers for a route, run on a request once the route's
  latency has passed (the delay itself is not modelled): the status code, the
  environment's headers, the route's headers, then the body.
\<close>

definition route_handler ::
  "('req, 'j) externals \<Rightarrow> environment \<Rightarrow> route \<Rightarrow> 'req \<Rightarrow> 'j response \<Rightarrow> string list
     \<Rightarrow> 'j outcome" where
  "route_handler ext env route req res alerts =
     (let routeContentType = getRouteContentType ext env route in
      case setHeaders (DummyJSONParser ext) (environment.headers env) req
             (res_status (statusCode route) res) of
        Inl (e, r) \<Rightarrow> Uncaught e r alerts
      | Inr res1 \<Rightarrow>
          (case setHeaders (DummyJSONParser ext) (route.headers route) req res1 of
             Inl (e, r) \<Rightarrow> Uncaught e r alerts
           | Inr res2 \<Rightarrow>
               if filePath route \<noteq> [] then serve_file ext routeContentType route req res2 alerts
               else if routeContentType = Some ''application/json''
               then serve_json ext route req res2 alerts
               else serve_body ext route req res2 alerts))"

definition outcome_response :: "'j outcome \<Rightarrow> 'j response" where
  "outcome_response out = (case out of Completed r a \<Rightarrow> r | Uncaught e r a \<Rightarrow> r)"

definition outcome_alerts :: "'j outcome \<Rightarrow> string list" where
  "outcome_alerts out = (case out of Completed r a \<Rightarrow> a | Uncaught e r a \<Rightarrow> a)"

section \<open>The server under construction\<close>

text \<open>
  The framework's application object is the list of what has been registered on it, in
  registration order: \<^verbatim>\<open>server.use\<close> with or without a path, and
  \<^verbatim>\<open>server[method](path, callback)\<close>. A callback is named by what it closes over.
\<close>

datatype 'm handler =
  ExpressMiddleware 'm
  | LogRequests string
  | EnvironmentLatency string
  | RouteHandler environment route
  | CorsPreflight string
  | Proxy string

datatype 'm layer =
  Use "string option" "'m handler"
  | Verb string string "'m handler"

text \<open>The path \<^verbatim>\<open>setRoutes\<close> registers a route under.\<close>

definition route_path :: "environment \<Rightarrow> route \<Rightarrow> string" where
  "route_path env route =
     ''/'' @ (if endpointPrefix env \<noteq> [] then endpointPrefix env @ ''/'' else [])
       @ replace_spaces (endpoint route)"

text \<open>
  One round of the \<^verbatim>\<open>forEach\<close> in \<^verbatim>\<open>setRoutes\<close>. The router may refuse the
  registration by throwing (\<open>register_error\<close>, a parameter: the path compiler is part of
  the framework); only an invalid regular expression is reported.
\<close>

definition add_route ::
  "(string \<Rightarrow> string \<Rightarrow> js_error option) \<Rightarrow> (errors_enum \<Rightarrow> string) \<Rightarrow> environment \<Rightarrow> route
     \<Rightarrow> 'm layer list \<times> string list \<Rightarrow> 'm layer list \<times> string list" where
  "add_route register_error errors env route st =
     (case st of (server, alerts) \<Rightarrow>
        if length (route.duplicates route) = 0 then
          (case register_error (route_method route) (route_path env route) of
             None \<Rightarrow>
               (server @ [Verb (route_method route) (route_path env route) (RouteHandler env route)],
                alerts)
           | Some error \<Rightarrow>
               if indexOf (message error) ''Invalid regular expression'' > - 1
               then (server, alerts @ [errors INVALID_ROUTE_REGEX @ endpoint route])
               else (server, alerts))
        else (server, alerts))"

definition setRoutes ::
  "(string \<Rightarrow> string \<Rightarrow> js_error option) \<Rightarrow> (errors_enum \<Rightarrow> string)
     \<Rightarrow> 'm layer list \<times> string list \<Rightarrow> environment \<Rightarrow> 'm layer list \<times> string list" where
  "setRoutes register_error errors st env =
     fold (add_route register_error errors env) (routes env) st"

definition setCors :: "'m layer list \<Rightarrow> environment \<Rightarrow> 'm layer list" where
  "setCors server env =
     (if cors env then server @ [Verb ''options'' ''/*'' (CorsPreflight (uuid env))]
      else server)"

text \<open>
  \<^verbatim>\<open>isValidURL\<close>: whether the runtime's \<^verbatim>\<open>URL\<close> constructor (a parameter) returns
  or throws.
\<close>

definition isValidURL :: "(string \<Rightarrow> js_error + 'u) \<Rightarrow> string \<Rightarrow> bool" where
  "isValidURL URL_new address =
     (case URL_new address of Inr myURL \<Rightarrow> True | Inl e \<Rightarrow> False)"

definition enableProxy ::
  "(string \<Rightarrow> js_error + 'u) \<Rightarrow> 'm layer list \<Rightarrow> environment \<Rightarrow> 'm layer list" where
  "enableProxy URL_new server env =
     (if proxyMode env \<and> proxyHost env \<noteq> [] \<and> isValidURL URL_new (proxyHost env)
      then server @ [Use (Some ''*'') (Proxy (proxyHost env))]
      else server)"

definition logRequests :: "'m layer list \<Rightarrow> environment \<Rightarrow> 'm layer list" where
  "logRequests server env = server @ [Use None (LogRequests (uuid env))]"

definition setEnvironmentLatency :: "'m layer list \<Rightarrow> string \<Rightarrow> 'm layer list" where
  "setEnvironmentLatency server environmentUUID =
     server @ [Use None (EnvironmentLatency environmentUUID)]"

text \<open>
  What \<^verbatim>\<open>start\<close> registers on a fresh application, in its order: the framework
  middlewares (\<^verbatim>\<open>ExpressMiddlewares\<close>, a parameter), the request log, the environment
  latency, the routes, the CORS responder, the proxy. Listening on the port is outside
  this model.
\<close>

definition start_layers ::
  "(string \<Rightarrow> string \<Rightarrow> js_error option) \<Rightarrow> (errors_enum \<Rightarrow> string)
     \<Rightarrow> (string \<Rightarrow> js_error + 'u) \<Rightarrow> 'm list \<Rightarrow> environment \<Rightarrow> string list
     \<Rightarrow> 'm layer list \<times> string list" where
  "start_layers register_error errors URL_new ExpressMiddlewares env alerts =
     (let server0 = map (\<lambda>m. Use None (ExpressMiddleware m)) ExpressMiddlewares;
          server1 = logRequests server0 env;
          server2 = setEnvironmentLatency server1 (uuid env);
          (server3, alerts') = setRoutes register_error errors (server2, alerts) env
      in (enableProxy URL_new (setCors server3 env) env, alerts'))"

section \<open>The request log\<close>

text \<open>
  The middleware \<^verbatim>\<open>logRequests\<close> installs, on one request. \<^verbatim>\<open>environmentsLogs\<close>
  maps an environment to its array; \<^verbatim>\<open>pop\<close> drops the last element (and does nothing
  on an empty array), \<^verbatim>\<open>unshift\<close> puts the new entry in front. The capacity
  \<^verbatim>\<open>Config.maxLogsPerEnvironment\<close> and \<^verbatim>\<open>dataService.formatRequestLog\<close> are
  declared in other modules (\<^verbatim>\<open>src/app/config\<close>, the data service) and are
  parameters here.
\<close>

definition log_request ::
  "nat \<Rightarrow> ('req \<Rightarrow> 'log) \<Rightarrow> string \<Rightarrow> 'req \<Rightarrow> (string \<rightharpoonup> 'log list) \<Rightarrow> (string \<rightharpoonup> 'log list)" where
  "log_request maxLogsPerEnvironment formatRequestLog environmentUUID req environmentsLogs =
     (let environmentLogs =
            (case environmentsLogs environmentUUID of None \<Rightarrow> [] | Some logs \<Rightarrow> logs);
          popped = (if length environmentLogs \<ge> maxLogsPerEnvironment
                    then butlast environmentLogs else environmentLogs)
      in environmentsLogs(environmentUUID \<mapsto> formatRequestLog req # popped))"

text \<open>The requests an environment receives one after the other.\<close>

definition log_requests ::
  "nat \<Rightarrow> ('req \<Rightarrow> 'log) \<Rightarrow> string \<Rightarrow> 'req list \<Rightarrow> (string \<rightharpoonup> 'log list) \<Rightarrow> (string \<rightharpoonup> 'log list)" where
  "log_requests cap fmt environmentUUID reqs environmentsLogs =
     fold (log_request cap fmt environmentUUID) reqs environmentsLogs"

text \<open>The buffer of an environment, empty when none has been created yet.\<close>

definition buffer_of :: "(string \<rightharpoonup> 'log list) \<Rightarrow> string \<Rightarrow> 'log list" where
  "buffer_of environmentsLogs environmentUUID =
     (case environmentsLogs environmentUUID of None \<Rightarrow> [] | Some logs \<Rightarrow> logs)"

section \<open>Stopping an environment\<close>

text \<open>
  The running instances by environment, the instances killed so far, and the status
  updates posted to the environments store. \<^verbatim>\<open>stop\<close> is modelled with the callback of
  \<^verbatim>\<open>instance.kill\<close> run: it removes the instance and posts the status.
\<close>

datatype store_action = UPDATE_ENVIRONMENT_STATUS (to_running: bool) (to_needRestart: bool)

record 'i service =
  instances :: "string \<rightharpoonup> 'i"
  killed :: "'i list"
  store_updates :: "store_action list"

definition stop :: "string \<Rightarrow> 'i service \<Rightarrow> 'i service" where
  "stop environmentUUID svc =
     (case instances svc environmentUUID of
        None \<Rightarrow> svc
      | Some instance \<Rightarrow>
          svc\<lparr>killed := killed svc @ [instance],
              instances := (instances svc)(environmentUUID := None),
              store_updates := store_updates svc @ [UPDATE_ENVIRONMENT_STATUS False False]\<rparr>)"

section \<open>The URL constructor of the runtime\<close>

text \<open>
  \<^verbatim>\<open>new URL(address)\<close> belongs to the runtime, not to the service. The runtime
  follows the URL standard's parser with no base URL. The part of that parser written out
  here decides three cases and leaves every other input open (\<open>Unmodelled\<close>):
  \<^item> the input, once leading and trailing C0 controls and spaces and all tabs and
    newlines are removed, must start with a scheme: an ASCII letter, then letters,
    digits, \<^verbatim>\<open>+\<close>, \<^verbatim>\<open>-\<close> or \<^verbatim>\<open>.\<close>, then a colon; without one, parsing fails;
  \<^item> after a special scheme other than \<^verbatim>\<open>file\<close>, slashes and backslashes are
    skipped and the authority runs up to the next slash, backslash, \<^verbatim>\<open>?\<close> or
    \<^verbatim>\<open>#\<close>; an empty authority fails;
  \<^item> an authority that is a plain domain (non-empty labels of ASCII letters, digits and
    hyphens separated by dots, no hyphens in the third and fourth place of a label, the
    last label starting with a letter) is a valid host, and whatever follows it parses.
\<close>

datatype url_verdict = Accepted | Rejected | Unmodelled

definition ascii_alpha :: "char \<Rightarrow> bool" where
  "ascii_alpha c \<longleftrightarrow>
     (let n = (of_char c :: nat) in (65 \<le> n \<and> n \<le> 90) \<or> (97 \<le> n \<and> n \<le> 122))"

definition ascii_digit :: "char \<Rightarrow> bool" where
  "ascii_digit c \<longleftrightarrow> (let n = (of_char c :: nat) in 48 \<le> n \<and> n \<le> 57)"

definition c0_or_space :: "char \<Rightarrow> bool" where
  "c0_or_space c \<longleftrightarrow> (of_char c :: nat) \<le> 32"

definition tab_or_newline :: "char \<Rightarrow> bool" where
  "tab_or_newline c \<longleftrightarrow> (of_char c :: nat) \<in> set [9, 10, 13]"

definition scheme_char :: "char \<Rightarrow> bool" where
  "scheme_char c \<longleftrightarrow> ascii_alpha c \<or> ascii_digit c \<or> c \<in> set ''+-.''"

definition authority_end :: "char \<Rightarrow> bool" where
  "authority_end c \<longleftrightarrow> c \<in> set [CHR ''/'', CHR 0x5C, CHR ''?'', CHR ''#'']"

definition slash :: "char \<Rightarrow> bool" where
  "slash c \<longleftrightarrow> c = CHR ''/'' \<or> c = CHR 0x5C"

definition hyphens_3_4 :: "string \<Rightarrow> bool" where
  "hyphens_3_4 label \<longleftrightarrow> take 2 (drop 2 label) = ''--''"

definition plain_domain :: "string \<Rightarrow> bool" where
  "plain_domain authority \<longleftrightarrow>
     (let labels = split authority (CHR ''.'') in
        list_all (\<lambda>l. l \<noteq> [] \<and> list_all (\<lambda>c. ascii_alpha c \<or> ascii_digit c \<or> c = CHR ''-'') l
                       \<and> \<not> hyphens_3_4 l) labels
        \<and> (case last labels of [] \<Rightarrow> False | c # cs \<Rightarrow> ascii_alpha c))"

definition strip_input :: "string \<Rightarrow> string" where
  "strip_input input =
     filter (\<lambda>c. \<not> tab_or_newline c)
       (rev (dropWhile c0_or_space (rev (dropWhile c0_or_space input))))"

definition url_parse :: "string \<Rightarrow> url_verdict" where
  "url_parse input =
     (let s = strip_input input in
      case s of
        [] \<Rightarrow> Rejected
      | c # cs \<Rightarrow>
          if \<not> ascii_alpha c then Rejected
          else
            (case dropWhile scheme_char s of
               [] \<Rightarrow> Rejected
             | d # rest \<Rightarrow>
                 if d \<noteq> CHR '':'' then Rejected
                 else if map ascii_lower (takeWhile scheme_char s)
                           \<in> set [''ftp'', ''http'', ''https'', ''ws'', ''wss'']
                 then
                   (let authority = takeWhile (\<lambda>c. \<not> authority_end c) (dropWhile slash rest)
                    in if authority = [] then Rejected
                       else if plain_domain authority then Accepted
                       else Unmodelled)
                 else Unmodelled))"

text \<open>
  A constructor conforms when it returns where the parser accepts and throws where the
  parser fails.
\<close>

definition conforms :: "(string \<Rightarrow> js_error + 'u) \<Rightarrow> bool" where
  "conforms URL_new \<longleftrightarrow>
     (\<forall>address. (url_parse address = Accepted \<longrightarrow> \<not> isl (URL_new address))
              \<and> (url_parse address = Rejected \<longrightarrow> isl (URL_new address)))"

text \<open>A conforming constructor that throws on every input left open.\<close>

definition strict_URL :: "string \<Rightarrow> js_error + string" where
  "strict_URL address =
     (if url_parse address = Accepted then Inr address
      else Inl (JsError (Some ''ERR_INVALID_URL'') ''Invalid URL''))"

section \<open>Notions used in the statements and proofs\<close>

text \<open>The guard of \<^verbatim>\<open>setHeaders\<close>, named for the proofs.\<close>

definition applies :: "header \<Rightarrow> bool" where
  "applies h \<longleftrightarrow> truthy (key h) \<and> truthy (val h) \<and> \<not> testHeaderValidity (str_of (key h))"

text \<open>What \<^verbatim>\<open>res.set\<close> stores under a field for a value.\<close>

definition stored_value :: "string \<Rightarrow> string \<Rightarrow> string" where
  "stored_value field v = (if lower field = ''content-type'' then content_type_value v else v)"

text \<open>
  A call keeps the headers outside a set of names; if \<^verbatim>\<open>Transfer-Encoding\<close> is not
  in the set, it keeps the status as well.
\<close>

definition keeps :: "string set \<Rightarrow> 'j response \<Rightarrow> 'j tried \<Rightarrow> bool" where
  "keeps K res t \<longleftrightarrow>
     (\<forall>k. k \<notin> K \<longrightarrow> res_headers (res_after t) k = res_headers res k)
     \<and> (''transfer-encoding'' \<notin> K \<longrightarrow> status (res_after t) = status res)"

text \<open>
  The names a send may write for a response: the content type and length always, the
  ETag unless the response has one, \<^verbatim>\<open>Transfer-Encoding\<close> unless the status stays
  clear of 204 and 304.
\<close>

definition send_allowed :: "('req, 'j) externals \<Rightarrow> 'req \<Rightarrow> string set \<Rightarrow> 'j response \<Rightarrow> bool" where
  "send_allowed ext req K res \<longleftrightarrow>
     ''content-type'' \<in> K \<and> ''content-length'' \<in> K
     \<and> (''etag'' \<in> K \<or> truthy (res_headers res ''etag''))
     \<and> (''transfer-encoding'' \<in> K
          \<or> (status res \<noteq> 204 \<and> status res \<noteq> 304 \<and> (\<forall>r. \<not> req_fresh ext req r)))"

text \<open>The response a file route's \<^verbatim>\<open>try\<close> block leaves behind.\<close>

definition file_res ::
  "(js_error \<times> string option \<times> 'j response) + 'j response \<Rightarrow> 'j response" where
  "file_res t = (case t of Inl (e, p, r) \<Rightarrow> r | Inr r \<Rightarrow> r)"

text \<open>
  The two \<^verbatim>\<open>setHeaders\<close> calls of the handler are one pass over the environment's
  list followed by the route's list.
\<close>

definition headers_applied ::
  "('req, 'j) externals \<Rightarrow> environment \<Rightarrow> route \<Rightarrow> 'req \<Rightarrow> 'j response \<Rightarrow> 'j tried" where
  "headers_applied ext env route req res =
     setHeaders (DummyJSONParser ext) (environment.headers env @ route.headers route) req
       (res_status (statusCode route) res)"

text \<open>The routes that have a handler on a server, in registration order.\<close>

fun registered_routes :: "'m layer list \<Rightarrow> route list" where
  "registered_routes [] = []"
| "registered_routes (Verb m p (RouteHandler e r) # ls) = r # registered_routes ls"
| "registered_routes (l # ls) = registered_routes ls"

text \<open>The upstream origins that have a proxy handler on a server.\<close>

fun proxy_targets :: "'m layer list \<Rightarrow> string list" where
  "proxy_targets [] = []"
| "proxy_targets (Use p (Proxy target) # ls) = target # proxy_targets ls"
| "proxy_targets (l # ls) = proxy_targets ls"

text \<open>
  The layers \<^verbatim>\<open>setRoutes\<close> adds for a list of routes: one for each route without
  duplicates whose registration the router accepts.
\<close>

definition route_layers ::
  "(string \<Rightarrow> string \<Rightarrow> js_error option) \<Rightarrow> environment \<Rightarrow> route list \<Rightarrow> 'm layer list" where
  "route_layers reg env rs =
     map (\<lambda>r. Verb (route_method r) (route_path env r) (RouteHandler env r))
       (filter (\<lambda>r. route.duplicates r = [] \<and> reg (route_method r) (route_path env r) = None) rs)"

section \<open>Sample configuration\<close>

text \<open>
  A response nothing has been written to. A stand-in for the content-type library that
  is exact on a value with no parameter but a charset: the lower-cased type with
  \<^verbatim>\<open>charset=utf-8\<close>, and \<^verbatim>\<open>invalid media type\<close> for a type that is not two tokens
  around a slash. A set of collaborators whose renderer returns the template as it is,
  whose file system holds no file, with no ETag function and no fresh request. A route
  and an environment with every optional part left empty.
\<close>

definition fresh_response :: "string response" where
  "fresh_response = \<lparr>status = 200, res_headers = Map.empty, sent = None, ended = False\<rparr>"

definition media_type_ok :: "string \<Rightarrow> bool" where
  "media_type_ok t \<longleftrightarrow>
     (case split t (CHR ''/'') of
        [a, b] \<Rightarrow> a \<noteq> [] \<and> b \<noteq> [] \<and> list_all token_char a \<and> list_all token_char b
      | _ \<Rightarrow> False)"

definition utf8_charset :: "string \<Rightarrow> js_error + string" where
  "utf8_charset v =
     (let t = takeWhile (\<lambda>c. c \<noteq> CHR '';'') v in
      if media_type_ok t then Inr (lower t @ ''; charset=utf-8'')
      else Inl (JsError None ''invalid media type''))"

definition echo_externals :: "(unit, string) externals" where
  "echo_externals =
     \<lparr>DummyJSONParser = (\<lambda>template req. Inr template),
      JSON_parse = (\<lambda>s. Inr s),
      mimeTypes_lookup = (\<lambda>path. None),
      readFileSync = (\<lambda>path. Inl (JsError (Some ''ENOENT'') ''no such file or directory'')),
      path_basename = (\<lambda>path. path),
      getRouteContentType = (\<lambda>env route. None),
      mimeTypesWithTemplating = [],
      Errors = (\<lambda>e. ''error: ''),
      setCharset = utf8_charset,
      JSON_stringify = (\<lambda>s. s),
      etag_fn = None,
      req_fresh = (\<lambda>req res. False)\<rparr>"

definition sample_route :: route where
  "sample_route =
     \<lparr>route_method = ''get'', endpoint = ''users'', statusCode = 200, latency = 0, body = [],
      filePath = [], sendFileAsBody = False, headers = [], duplicates = []\<rparr>"

definition sample_environment :: environment where
  "sample_environment =
     \<lparr>uuid = ''e1'', running = False, name = ''sample'', port = 3000, endpointPrefix = [],
      latency = 0, routes = [], startedAt = None, modifiedAt = None, needRestart = None,
      proxyMode = False, proxyHost = [], https = False, cors = False, headers = [],
      duplicates = []\<rparr>"

text \<open>
  The same collaborators with two files on disk, a text file and an image, a mime type
  table by file extension and templating for JSON and plain text; with a renderer that
  fills the placeholder \<^verbatim>\<open>{{ext}}\<close> with \<^verbatim>\<open>txt\<close>; and with a JSON parser that
  answers two malformed texts with the messages of the runtime's parser (input ending
  too early, unexpected token), for routes whose content type is
  \<^verbatim>\<open>application/json\<close>.
\<close>

definition mime_by_extension :: "string \<Rightarrow> string option" where
  "mime_by_extension path =
     (let extension = rev (takeWhile (\<lambda>c. c \<noteq> CHR ''.'') (rev path)) in
      if CHR ''.'' \<notin> set path then None
      else if extension = ''txt'' then Some ''text/plain''
      else if extension = ''json'' then Some ''application/json''
      else if extension = ''png'' then Some ''image/png''
      else None)"

definition disk_externals :: "(unit, string) externals" where
  "disk_externals =
     echo_externals
       \<lparr>mimeTypes_lookup := mime_by_extension,
        readFileSync :=
          (\<lambda>path. if path = ''data.txt'' then Inr ''type {{ext}}''
                   else if path = ''logo.png'' then Inr ''PNG''
                   else Inl (JsError (Some ''ENOENT'') ''no such file or directory'')),
        mimeTypesWithTemplating := [''application/json'', ''text/plain'']\<rparr>"

fun fill :: "string \<Rightarrow> string \<Rightarrow> nat \<Rightarrow> string \<Rightarrow> string" where
  "fill placeholder by skip [] = []"
| "fill placeholder by skip (c # s) =
     (if skip > 0 then fill placeholder by (skip - 1) s
      else if placeholder \<noteq> [] \<and> starts_with (c # s) placeholder
      then by @ fill placeholder by (length placeholder - 1) s
      else c # fill placeholder by 0 s)"

definition templated_externals :: "(unit, string) externals" where
  "templated_externals =
     disk_externals
       \<lparr>DummyJSONParser := (\<lambda>template req. Inr (fill ''{{ext}}'' ''txt'' 0 template))\<rparr>"

definition json_externals :: "(unit, string) externals" where
  "json_externals =
     echo_externals
       \<lparr>JSON_parse :=
          (\<lambda>s. if s = ''[1,'' then Inl (JsError None ''Unexpected end of JSON input'')
                else if s = ''[1,}'' then Inl (JsError None ''Unexpected token } in JSON at position 3'')
                else Inr s),
        getRouteContentType := (\<lambda>env route. Some ''application/json'')\<rparr>"

section \<open>Properties of header writes\<close>

lemma res_after_simps [simp]:
  "res_after (Inr r) = r" "res_after (Inl (e, r)) = r"
  by (simp_all add: res_after_def)

lemma then_do_simps [simp]:
  "then_do (Inr r) f = f r" "then_do (Inl x) f = Inl x"
  by (simp_all add: then_do_def)

lemma lower_names:
  "lower ''Content-Type'' = ''content-type''"
  "lower ''Content-Length'' = ''content-length''"
  "lower ''Content-Disposition'' = ''content-disposition''"
  "lower ''ETag'' = ''etag''"
  by code_simp+


lemma setHeader_cases:
  "(\<exists>e. setHeader n v r = Inl (e, r))
   \<or> setHeader n v r = Inr (r\<lparr>res_headers := (res_headers r)(lower n \<mapsto> v)\<rparr>)"
  by (simp add: setHeader_def)

lemma setHeader_ok:
  "n \<noteq> [] \<Longrightarrow> \<not> list_ex (\<lambda>c. \<not> token_char c) n \<Longrightarrow> \<not> list_ex invalid_header_char v
     \<Longrightarrow> setHeader n v r = Inr (r\<lparr>res_headers := (res_headers r)(lower n \<mapsto> v)\<rparr>)"
  by (simp add: setHeader_def)


lemma res_set_cases:
  "(\<exists>e. res_set f v r = Inl (e, r))
   \<or> res_set f v r = Inr (r\<lparr>res_headers := (res_headers r)(lower f \<mapsto> stored_value f v)\<rparr>)"
  unfolding res_set_def stored_value_def by (rule setHeader_cases)

lemma keeps_Inr [simp]: "keeps K r (Inr r)"
  by (simp add: keeps_def)

lemma keeps_Inl [simp]: "keeps K r (Inl (e, r))"
  by (simp add: keeps_def)

lemma keeps_mono: "keeps K r t \<Longrightarrow> K \<subseteq> K' \<Longrightarrow> keeps K' r t"
  by (auto simp: keeps_def)

lemma keeps_then_do:
  assumes "keeps K r t" and "\<And>r'. t = Inr r' \<Longrightarrow> keeps K r' (f r')"
  shows "keeps K r (then_do t f)"
proof (cases t)
  case (Inl x)
  then show ?thesis using assms(1) by simp
next
  case (Inr r')
  then show ?thesis using assms(1) assms(2) [OF Inr] by (simp add: keeps_def)
qed

lemma keeps_res_set: "keeps {lower f} r (res_set f v r)"
  using res_set_cases [of f v r] by (auto simp: keeps_def)

lemma keeps_res_set_in: "lower f \<in> K \<Longrightarrow> keeps K r (res_set f v r)"
  using keeps_res_set [of f r v] by (rule keeps_mono) simp

lemma keeps_headers: "keeps K r t \<Longrightarrow> k \<notin> K \<Longrightarrow> res_headers (res_after t) k = res_headers r k"
  by (simp add: keeps_def)

lemma keeps_status:
  "keeps K r t \<Longrightarrow> ''transfer-encoding'' \<notin> K \<Longrightarrow> status (res_after t) = status r"
  by (simp add: keeps_def)

section \<open>Properties of header application\<close>

lemma setHeaders_Cons:
  "setHeaders P (h # hs) req res =
     (if applies h then
        (case P (str_of (val h)) req of
           Inl e \<Rightarrow> Inl (e, res)
         | Inr v \<Rightarrow> then_do (res_set (str_of (key h)) v res) (setHeaders P hs req))
      else setHeaders P hs req res)"
  unfolding applies_def by (rule setHeaders.simps(2))

declare setHeaders.simps(2) [simp del]

lemma setHeaders_append:
  "setHeaders P (xs @ ys) req res = then_do (setHeaders P xs req res) (setHeaders P ys req)"
proof (induction xs arbitrary: res)
  case Nil
  show ?case by simp
next
  case (Cons h xs)
  show ?case
  proof (cases "applies h")
    case False
    then show ?thesis using Cons by (simp add: setHeaders_Cons)
  next
    case True
    show ?thesis
    proof (cases "P (str_of (val h)) req")
      case (Inl e)
      then show ?thesis using True by (simp add: setHeaders_Cons)
    next
      case (Inr v)
      then show ?thesis using True Cons
        by (cases "res_set (str_of (key h)) v res") (simp_all add: setHeaders_Cons)
    qed
  qed
qed

lemma setHeaders_skip:
  "\<not> applies h \<Longrightarrow> setHeaders P (h # hs) req res = setHeaders P hs req res"
  by (simp add: setHeaders_Cons)

lemma setHeaders_drop_entry:
  "\<not> applies h \<Longrightarrow> setHeaders P (hs1 @ h # hs2) req res = setHeaders P (hs1 @ hs2) req res"
  by (cases "setHeaders P hs1 req res") (simp_all add: setHeaders_append setHeaders_skip)

lemma setHeaders_keeps:
  "\<forall>h \<in> set hs. applies h \<longrightarrow> lower (str_of (key h)) \<in> K
     \<Longrightarrow> keeps K res (setHeaders P hs req res)"
proof (induction hs arbitrary: res)
  case Nil
  show ?case by simp
next
  case (Cons h hs)
  have pre: "\<forall>h \<in> set hs. applies h \<longrightarrow> lower (str_of (key h)) \<in> K"
    using Cons.prems by simp
  note IH = Cons.IH [OF pre]
  show ?case
  proof (cases "applies h")
    case False
    then show ?thesis using IH by (simp add: setHeaders_Cons)
  next
    case True
    then have inK: "lower (str_of (key h)) \<in> K" using Cons.prems by simp
    show ?thesis
    proof (cases "P (str_of (val h)) req")
      case (Inl e)
      then show ?thesis using True by (simp add: setHeaders_Cons)
    next
      case (Inr v)
      have "keeps K res (then_do (res_set (str_of (key h)) v res) (setHeaders P hs req))"
        by (rule keeps_then_do [OF keeps_res_set_in [OF inK]]) (rule IH)
      then show ?thesis using True Inr by (simp add: setHeaders_Cons)
    qed
  qed
qed

lemma setHeaders_untouched:
  assumes "\<forall>h \<in> set hs. applies h \<longrightarrow> lower (str_of (key h)) \<noteq> k"
  shows "res_headers (res_after (setHeaders P hs req res)) k = res_headers res k"
proof -
  have "keeps (- {k}) res (setHeaders P hs req res)"
    by (rule setHeaders_keeps) (use assms in auto)
  then show ?thesis by (simp add: keeps_def)
qed

lemma invalid_key_test:
  "c \<in> set k \<Longrightarrow> \<not> token_char c \<Longrightarrow> testHeaderValidity k"
  by (auto simp: testHeaderValidity_def list_ex_iff)

lemma lower_keeps_invalid: "testHeaderValidity k \<Longrightarrow> testHeaderValidity (lower k)"
proof -
  have "\<not> token_char c \<Longrightarrow> ascii_lower c = c" for c
    by (auto simp: token_char_def ascii_lower_def Let_def)
  then have "\<not> token_char c \<Longrightarrow> \<not> token_char (ascii_lower c)" for c by simp
  then show "testHeaderValidity k \<Longrightarrow> testHeaderValidity (lower k)"
    by (auto simp: testHeaderValidity_def lower_def list_ex_iff)
qed





section \<open>Which headers a send writes\<close>

lemma keeps_trans: "keeps K r (Inr r') \<Longrightarrow> keeps K r' t \<Longrightarrow> keeps K r t"
  by (simp add: keeps_def)

lemma send_allowed_keeps:
  "send_allowed ext req K r \<Longrightarrow> keeps K r (Inr r') \<Longrightarrow> send_allowed ext req K r'"
  by (auto simp: send_allowed_def keeps_def)

lemma send_default_type_keeps:
  "''content-type'' \<in> K \<Longrightarrow> keeps K r (send_default_type chunk r)"
  by (simp add: send_default_type_def keeps_res_set_in lower_names)

lemma send_charset_keeps:
  "''content-type'' \<in> K \<Longrightarrow> keeps K r (send_charset ext chunk r)"
  by (simp add: send_charset_def keeps_res_set_in lower_names split: option.splits sum.splits)

lemma send_length_keeps:
  "''content-length'' \<in> K \<Longrightarrow> keeps K r (send_length ext chunk r)"
  by (simp add: send_length_def keeps_res_set_in lower_names)

lemma send_etag_keeps:
  "(g \<longrightarrow> ''etag'' \<in> K) \<Longrightarrow> keeps K r (send_etag ext chunk g r)"
  by (simp add: send_etag_def keeps_res_set_in lower_names split: option.splits)

lemma send_finish_keeps:
  assumes "send_allowed ext req K r"
  shows "keeps K r (Inr (send_finish ext req chunk r))"
proof (cases "''transfer-encoding'' \<in> K")
  case True
  then show ?thesis using assms
    by (auto simp: keeps_def send_finish_def Let_def send_allowed_def)
next
  case False
  then have "status r \<noteq> 204" "status r \<noteq> 304" "\<not> req_fresh ext req r"
    using assms by (auto simp: send_allowed_def)
  then show ?thesis by (simp add: keeps_def send_finish_def Let_def)
qed

lemma send_tail_keeps:
  assumes "send_allowed ext req K r"
  shows "keeps K r (send_tail ext req chunk r)"
proof -
  have cl: "''content-length'' \<in> K" using assms by (simp add: send_allowed_def)
  have g: "\<not> truthy (res_headers r ''etag'') \<longrightarrow> ''etag'' \<in> K"
    using assms by (auto simp: send_allowed_def)
  have k1: "keeps K r (then_do (send_length ext chunk r)
              (send_etag ext chunk (\<not> truthy (res_headers r ''etag''))))"
    by (rule keeps_then_do [OF send_length_keeps [OF cl]]) (rule send_etag_keeps [OF g])
  show ?thesis unfolding send_tail_def
  proof (rule keeps_then_do [OF k1])
    fix r'
    assume "then_do (send_length ext chunk r)
              (send_etag ext chunk (\<not> truthy (res_headers r ''etag''))) = Inr r'"
    then have "keeps K r (Inr r')" using k1 by simp
    then have "send_allowed ext req K r'" by (rule send_allowed_keeps [OF assms])
    then show "keeps K r' (Inr (send_finish ext req chunk r'))" by (rule send_finish_keeps)
  qed
qed

lemma res_send_keeps:
  assumes "send_allowed ext req K r"
  shows "keeps K r (res_send ext req chunk r)"
proof -
  have ct: "''content-type'' \<in> K" using assms by (simp add: send_allowed_def)
  have k1: "keeps K r (then_do (send_default_type chunk r) (send_charset ext chunk))"
    by (rule keeps_then_do [OF send_default_type_keeps [OF ct]])
       (rule send_charset_keeps [OF ct])
  show ?thesis unfolding res_send_def
  proof (rule keeps_then_do [OF k1])
    fix r'
    assume "then_do (send_default_type chunk r) (send_charset ext chunk) = Inr r'"
    then have "keeps K r (Inr r')" using k1 by simp
    then have "send_allowed ext req K r'" by (rule send_allowed_keeps [OF assms])
    then show "keeps K r' (send_tail ext req chunk r')" by (rule send_tail_keeps)
  qed
qed

lemma set_then_send_keeps:
  assumes "send_allowed ext req K r" and "keeps K r t"
  shows "keeps K r (then_do t (res_send ext req chunk))"
proof (rule keeps_then_do [OF assms(2)])
  fix r'
  assume "t = Inr r'"
  then have "keeps K r (Inr r')" using assms(2) by simp
  then have "send_allowed ext req K r'" by (rule send_allowed_keeps [OF assms(1)])
  then show "keeps K r' (res_send ext req chunk r')" by (rule res_send_keeps)
qed

lemma res_json_keeps:
  assumes "send_allowed ext req K r"
  shows "keeps K r (res_json ext req obj r)"
proof -
  have ct: "''content-type'' \<in> K" using assms by (simp add: send_allowed_def)
  show ?thesis unfolding res_json_def
    by (rule set_then_send_keeps [OF assms]) (simp add: keeps_res_set_in lower_names ct)
qed

lemma sendError_keeps:
  assumes "send_allowed ext req K r"
  shows "keeps K r (fst (sendError ext req r m b al))"
proof -
  have ct: "''content-type'' \<in> K" using assms by (simp add: send_allowed_def)
  show ?thesis unfolding sendError_def fst_conv
    by (rule set_then_send_keeps [OF assms]) (simp add: keeps_res_set_in lower_names ct)
qed

section \<open>Which headers a handler writes\<close>

lemma end_catch_keeps:
  "keeps K r (fst x) \<Longrightarrow> keeps K r (Inr (outcome_response (end_catch x)))"
  by (cases x, cases "fst x")
     (auto simp: end_catch_def outcome_response_def res_end_def keeps_def)

lemma file_catch_keeps:
  "send_allowed ext req K r
     \<Longrightarrow> keeps K r (Inr (outcome_response (file_catch ext req e p r al)))"
  unfolding file_catch_def by (rule end_catch_keeps) (simp add: sendError_keeps)

lemma json_catch_keeps:
  "send_allowed ext req K r
     \<Longrightarrow> keeps K r (Inr (outcome_response (json_catch ext req e r al)))"
  unfolding json_catch_def by (rule end_catch_keeps) (simp add: sendError_keeps)

lemma body_catch_keeps:
  "send_allowed ext req K r
     \<Longrightarrow> keeps K r (Inr (outcome_response (body_catch ext req e r al)))"
  unfolding body_catch_def by (rule end_catch_keeps) (simp add: sendError_keeps)

lemma file_send_keeps:
  assumes "send_allowed ext req K r"
    and "''content-disposition'' \<in> K \<or> sendFileAsBody route"
  shows "keeps K r (file_send ext req route path c r)"
  unfolding file_send_def
  by (rule set_then_send_keeps [OF assms(1)])
     (use assms(2) in \<open>auto simp: keeps_res_set_in lower_names\<close>)

lemma file_read_send_keeps:
  assumes "send_allowed ext req K r"
    and "''content-disposition'' \<in> K \<or> sendFileAsBody route"
  shows "keeps K r (file_read_send ext req route path m r)"
  using file_send_keeps [OF assms]
  by (simp add: file_read_send_def split: sum.splits)

lemma file_after_path_keeps:
  assumes "send_allowed ext req K r"
    and "''content-disposition'' \<in> K \<or> sendFileAsBody route"
  shows "keeps K r (file_after_path ext rct route req path r)"
proof -
  have ct: "''content-type'' \<in> K" using assms(1) by (simp add: send_allowed_def)
  let ?t = "if \<not> truthy rct
            then res_set ''Content-Type'' (mime_string (mimeTypes_lookup ext (filePath route))) r
            else Inr r"
  have k1: "keeps K r ?t" by (simp add: keeps_res_set_in lower_names ct)
  have "keeps K r (then_do ?t
          (file_read_send ext req route path (mimeTypes_lookup ext (filePath route))))"
  proof (rule keeps_then_do [OF k1])
    fix r'
    assume "?t = Inr r'"
    then have "keeps K r (Inr r')" using k1 by simp
    then have "send_allowed ext req K r'" by (rule send_allowed_keeps [OF assms(1)])
    then show "keeps K r' (file_read_send ext req route path
                 (mimeTypes_lookup ext (filePath route)) r')"
      using assms(2) by (rule file_read_send_keeps)
  qed
  then show ?thesis by (simp add: file_after_path_def Let_def)
qed

lemma serve_file_keeps:
  assumes "send_allowed ext req K r"
    and "''content-disposition'' \<in> K \<or> sendFileAsBody route"
  shows "keeps K r (Inr (outcome_response (serve_file ext rct route req r al)))"
proof (cases "DummyJSONParser ext (filePath route) req")
  case (Inl e)
  then show ?thesis using file_catch_keeps [OF assms(1)]
    by (simp add: serve_file_def file_try_def)
next
  case (Inr path)
  note k = file_after_path_keeps [OF assms, of rct path]
  show ?thesis
  proof (cases "file_after_path ext rct route req path r")
    case (Inr r')
    then show ?thesis using k Inr \<open>DummyJSONParser ext (filePath route) req = Inr path\<close>
      by (simp add: serve_file_def file_try_def outcome_response_def)
  next
    case (Inl x)
    obtain e r' where x: "x = (e, r')" by (cases x) auto
    have k': "keeps K r (Inr r')" using k Inl x by (simp add: keeps_def)
    then have "send_allowed ext req K r'" by (rule send_allowed_keeps [OF assms(1)])
    then have "keeps K r' (Inr (outcome_response (file_catch ext req e (Some path) r' al)))"
      by (rule file_catch_keeps)
    then have "keeps K r (Inr (outcome_response (file_catch ext req e (Some path) r' al)))"
      by (rule keeps_trans [OF k'])
    then show ?thesis using Inl x \<open>DummyJSONParser ext (filePath route) req = Inr path\<close>
      by (simp add: serve_file_def file_try_def)
  qed
qed

lemma try_catch_keeps:
  assumes "send_allowed ext req K r" and "keeps K r t"
    and "\<And>e r'. send_allowed ext req K r' \<Longrightarrow> keeps K r' (Inr (outcome_response (handle e r')))"
  shows "keeps K r (Inr (outcome_response
           (case t of Inr r' \<Rightarrow> Completed r' al | Inl (e, r') \<Rightarrow> handle e r')))"
proof (cases t)
  case (Inr r')
  then show ?thesis using assms(2) by (simp add: outcome_response_def keeps_def)
next
  case (Inl x)
  obtain e r' where x: "x = (e, r')" by (cases x) auto
  have k': "keeps K r (Inr r')" using assms(2) Inl x by (simp add: keeps_def)
  then have "send_allowed ext req K r'" by (rule send_allowed_keeps [OF assms(1)])
  then have "keeps K r' (Inr (outcome_response (handle e r')))" by (rule assms(3))
  then show ?thesis using Inl x keeps_trans [OF k'] by simp
qed

lemma json_try_keeps:
  "send_allowed ext req K r \<Longrightarrow> keeps K r (json_try ext route req r)"
  by (simp add: json_try_def res_json_keeps split: sum.splits)

lemma body_try_keeps:
  "send_allowed ext req K r \<Longrightarrow> keeps K r (body_try ext route req r)"
  by (simp add: body_try_def res_send_keeps split: sum.splits)

lemma serve_json_keeps:
  assumes "send_allowed ext req K r"
  shows "keeps K r (Inr (outcome_response (serve_json ext route req r al)))"
  unfolding serve_json_def
  by (rule try_catch_keeps [OF assms json_try_keeps [OF assms]]) (rule json_catch_keeps)

lemma serve_body_keeps:
  assumes "send_allowed ext req K r"
  shows "keeps K r (Inr (outcome_response (serve_body ext route req r al)))"
  unfolding serve_body_def
  by (rule try_catch_keeps [OF assms body_try_keeps [OF assms]]) (rule body_catch_keeps)

lemma route_handler_cases:
  "(\<exists>e r. headers_applied ext env route req res = Inl (e, r)
          \<and> route_handler ext env route req res al = Uncaught e r al)
   \<or> (\<exists>r. headers_applied ext env route req res = Inr r
          \<and> route_handler ext env route req res al
              = (if filePath route \<noteq> []
                 then serve_file ext (getRouteContentType ext env route) route req r al
                 else if getRouteContentType ext env route = Some ''application/json''
                 then serve_json ext route req r al
                 else serve_body ext route req r al))"
proof (cases "setHeaders (DummyJSONParser ext) (environment.headers env) req
                (res_status (statusCode route) res)")
  case (Inl x)
  then show ?thesis
    by (cases x) (simp add: route_handler_def headers_applied_def setHeaders_append)
next
  case (Inr r1)
  then show ?thesis
    by (cases "setHeaders (DummyJSONParser ext) (route.headers route) req r1")
       (auto simp: route_handler_def headers_applied_def setHeaders_append Let_def)
qed

lemma route_handler_keeps:
  assumes "send_allowed ext req K (res_after (headers_applied ext env route req res))"
    and "''content-disposition'' \<in> K \<or> filePath route = [] \<or> sendFileAsBody route"
  shows "keeps K (res_after (headers_applied ext env route req res))
           (Inr (outcome_response (route_handler ext env route req res al)))"
  using route_handler_cases [of ext env route req res al]
proof (elim disjE exE conjE)
  fix e r
  assume "headers_applied ext env route req res = Inl (e, r)"
    and "route_handler ext env route req res al = Uncaught e r al"
  then show ?thesis by (simp add: outcome_response_def)
next
  fix r
  assume h: "headers_applied ext env route req res = Inr r"
    and rh: "route_handler ext env route req res al
              = (if filePath route \<noteq> []
                 then serve_file ext (getRouteContentType ext env route) route req r al
                 else if getRouteContentType ext env route = Some ''application/json''
                 then serve_json ext route req r al
                 else serve_body ext route req r al)"
  have sa: "send_allowed ext req K r" using assms(1) h by simp
  show ?thesis
  proof (cases "filePath route \<noteq> []")
    case True
    then have "''content-disposition'' \<in> K \<or> sendFileAsBody route" using assms(2) by simp
    then show ?thesis using True h rh serve_file_keeps [OF sa] by simp
  next
    case False
    then show ?thesis using h rh serve_json_keeps [OF sa] serve_body_keeps [OF sa] by simp
  qed
qed

section \<open>The content type of an inline body that is sent\<close>


declare decimal.simps [simp del]






section \<open>Header entries that are skipped\<close>

lemma invalid_key_not_applied:
  "c \<in> set k \<Longrightarrow> \<not> token_char c \<Longrightarrow> key h = Some k \<Longrightarrow> \<not> applies h"
  using invalid_key_test [of c k] by (simp add: applies_def str_of_def)

lemma valid_store_names:
  "\<not> testHeaderValidity ''content-type''" "\<not> testHeaderValidity ''content-length''"
  "\<not> testHeaderValidity ''content-disposition''" "\<not> testHeaderValidity ''etag''"
  "\<not> testHeaderValidity ''transfer-encoding''"
  by (simp_all add: testHeaderValidity_def token_char_def)

lemma lower_keeps_valid: "\<not> testHeaderValidity n \<Longrightarrow> \<not> testHeaderValidity (lower n)"
proof -
  have "token_char c \<Longrightarrow> token_char (ascii_lower c)" for c
  proof -
    assume t: "token_char c"
    show ?thesis
    proof (cases "65 \<le> (of_char c :: nat) \<and> (of_char c :: nat) \<le> 90")
      case True
      then have "(of_char (ascii_lower c) :: nat) = of_char c + 32"
        by (simp add: ascii_lower_def Let_def)
      then show ?thesis using True by (simp add: token_char_def Let_def)
    next
      case False
      then have "ascii_lower c = c" by (auto simp: ascii_lower_def Let_def)
      then show ?thesis using t by simp
    qed
  qed
  then show "\<not> testHeaderValidity n \<Longrightarrow> \<not> testHeaderValidity (lower n)"
    by (auto simp: testHeaderValidity_def lower_def list_ex_iff)
qed

lemma invalid_name_untouched:
  assumes "testHeaderValidity k"
  shows "res_headers (res_after (setHeaders P hs req res)) k = res_headers res k"
    and "res_headers (outcome_response (route_handler ext env route req res alerts)) k
           = res_headers res k"
proof -
  have none: "\<forall>h \<in> set xs. applies h \<longrightarrow> lower (str_of (key h)) \<noteq> k" for xs
    using assms lower_keeps_valid by (auto simp: applies_def)
  show a: "res_headers (res_after (setHeaders P hs req res)) k = res_headers res k" for P hs res
    by (rule setHeaders_untouched [OF none])
  let ?K = "{''content-type'', ''content-length'', ''etag'', ''transfer-encoding'',
             ''content-disposition''}"
  have k: "k \<notin> ?K" using assms valid_store_names by auto
  have "keeps ?K (res_after (headers_applied ext env route req res))
          (Inr (outcome_response (route_handler ext env route req res alerts)))"
    by (rule route_handler_keeps) (simp_all add: send_allowed_def)
  then have "res_headers (outcome_response (route_handler ext env route req res alerts)) k
          = res_headers (res_after (headers_applied ext env route req res)) k"
    using k by (simp add: keeps_def)
  also have "\<dots> = res_headers (res_status (statusCode route) res) k"
    unfolding headers_applied_def by (rule a)
  also have "\<dots> = res_headers res k" by (simp add: res_status_def)
  finally show "res_headers (outcome_response (route_handler ext env route req res alerts)) k
           = res_headers res k" .
qed

text \<open>
  Claim C4. A header entry whose key holds a character outside the token set is skipped:
  the list behaves as if the entry were not there (the renderer is not even called on
  its value, so the entry cannot raise an error), no call of \<^verbatim>\<open>setHeaders\<close> on any list
  changes what the response holds under that key, as written or in lower case, and
  neither does the handler of a route as a whole. A key absent from the response before
  stays absent.
\<close>

theorem invalid_header_key_never_written:
  assumes "c \<in> set k" and "\<not> token_char c"
  shows "(key h = Some k \<longrightarrow>
            setHeaders P (hs1 @ h # hs2) req res = setHeaders P (hs1 @ hs2) req res
            \<and> setHeaders P [h] req res = Inr res)
       \<and> res_headers (res_after (setHeaders P hs req res)) k = res_headers res k
       \<and> res_headers (res_after (setHeaders P hs req res)) (lower k) = res_headers res (lower k)
       \<and> res_headers (outcome_response (route_handler ext env route req res alerts)) k
           = res_headers res k
       \<and> res_headers (outcome_response (route_handler ext env route req res alerts)) (lower k)
           = res_headers res (lower k)"
proof -
  have invalid: "testHeaderValidity k" using assms by (rule invalid_key_test)
  then have invalid': "testHeaderValidity (lower k)" by (rule lower_keeps_invalid)
  have a: "key h = Some k \<longrightarrow>
            setHeaders P (hs1 @ h # hs2) req res = setHeaders P (hs1 @ hs2) req res
            \<and> setHeaders P [h] req res = Inr res"
    using invalid_key_not_applied [OF assms, of h] setHeaders_drop_entry [of h P hs1 hs2 req res]
    by (auto simp: setHeaders_skip)
  show ?thesis
    using a invalid_name_untouched(1) [OF invalid, of P hs req res]
      invalid_name_untouched(2) [OF invalid, of ext env route req res alerts]
      invalid_name_untouched(1) [OF invalid', of P hs req res]
      invalid_name_untouched(2) [OF invalid', of ext env route req res alerts]
    by blast
qed

theorem invalid_header_key_never_written_witness:
  "CHR '' '' \<in> set ''X Id'' \<and> \<not> token_char (CHR '' '')
   \<and> setHeaders (DummyJSONParser echo_externals)
        [\<lparr>key = Some ''X Id'', val = Some ''1''\<rparr>] () fresh_response = Inr fresh_response
   \<and> res_headers (outcome_response
        (route_handler echo_externals
           (sample_environment\<lparr>environment.headers := [\<lparr>key = Some ''X Id'', val = Some ''1''\<rparr>]\<rparr>)
           sample_route () fresh_response [])) ''X Id'' = None
   \<and> res_headers (outcome_response
        (route_handler echo_externals
           (sample_environment\<lparr>environment.headers := [\<lparr>key = Some ''X Id'', val = Some ''1''\<rparr>]\<rparr>)
           sample_route () fresh_response [])) (lower ''X Id'') = None"
proof -
  have h1: "CHR '' '' \<in> set ''X Id''" by simp
  have h2: "\<not> token_char (CHR '' '')" by (simp add: token_char_def)
  show ?thesis
    using h1 h2
      invalid_header_key_never_written [OF h1 h2,
        of "\<lparr>key = Some ''X Id'', val = Some ''1''\<rparr>" "DummyJSONParser echo_externals"
           "[]" "[]" "()" fresh_response "[]" echo_externals
           "sample_environment\<lparr>environment.headers := [\<lparr>key = Some ''X Id'', val = Some ''1''\<rparr>]\<rparr>"
           sample_route "[]"]
    by (simp add: fresh_response_def)
qed

text \<open>
  Claim C10. A header entry whose value is absent or empty is skipped whatever its key:
  the list behaves as if the entry were not there. An entry is written exactly when its
  key and its value are both non-empty and the key is valid, and then by \<^verbatim>\<open>res.set\<close>
  under its key with the rendered value: unless the runtime refuses the value, the
  response then holds it under the lower-cased key.
\<close>

theorem empty_header_value_skipped:
  "(val h = None \<or> val h = Some [] \<longrightarrow>
      setHeaders P (hs1 @ h # hs2) req res = setHeaders P (hs1 @ hs2) req res
      \<and> setHeaders P [h] req res = Inr res)
   \<and> (key h = Some k \<and> k \<noteq> [] \<and> val h = Some t \<and> t \<noteq> [] \<and> \<not> testHeaderValidity k
        \<and> P t req = Inr v \<longrightarrow>
      setHeaders P [h] req res = res_set k v res
      \<and> (\<not> list_ex invalid_header_char (stored_value k v) \<longrightarrow>
           setHeaders P [h] req res
             = Inr (res\<lparr>res_headers := (res_headers res)(lower k \<mapsto> stored_value k v)\<rparr>)))"
proof -
  have "val h = None \<or> val h = Some [] \<Longrightarrow> \<not> applies h"
    by (auto simp: applies_def truthy_def)
  then have a: "val h = None \<or> val h = Some [] \<longrightarrow>
      setHeaders P (hs1 @ h # hs2) req res = setHeaders P (hs1 @ hs2) req res
      \<and> setHeaders P [h] req res = Inr res"
    using setHeaders_drop_entry [of h P hs1 hs2 req res] by (auto simp: setHeaders_skip)
  have b: "setHeaders P [h] req res = res_set k v res
      \<and> (\<not> list_ex invalid_header_char (stored_value k v) \<longrightarrow>
           setHeaders P [h] req res
             = Inr (res\<lparr>res_headers := (res_headers res)(lower k \<mapsto> stored_value k v)\<rparr>))"
    if h: "key h = Some k" "k \<noteq> []" "val h = Some t" "t \<noteq> []" "\<not> testHeaderValidity k"
      "P t req = Inr v"
  proof -
    have eq: "setHeaders P [h] req res = res_set k v res"
      using h
      by (cases "res_set k v res")
         (simp_all add: setHeaders_Cons applies_def truthy_def str_of_def)
    have name: "\<not> list_ex (\<lambda>c. \<not> token_char c) k"
      using h(2,5) by (simp add: testHeaderValidity_def)
    have "res_set k v res
            = Inr (res\<lparr>res_headers := (res_headers res)(lower k \<mapsto> stored_value k v)\<rparr>)"
      if "\<not> list_ex invalid_header_char (stored_value k v)"
      using that name h(2) by (simp add: res_set_def stored_value_def setHeader_ok)
    then show ?thesis using eq by simp
  qed
  show ?thesis using a b by blast
qed

theorem empty_header_value_skipped_witness:
  "setHeaders (DummyJSONParser echo_externals)
     [\<lparr>key = Some ''X-A'', val = Some ''1''\<rparr>, \<lparr>key = Some ''X-B'', val = Some []\<rparr>]
     () fresh_response
   = setHeaders (DummyJSONParser echo_externals)
       [\<lparr>key = Some ''X-A'', val = Some ''1''\<rparr>] () fresh_response
   \<and> setHeaders (DummyJSONParser echo_externals)
       [\<lparr>key = Some ''X-A'', val = Some ''1''\<rparr>] () fresh_response
     = Inr (fresh_response\<lparr>res_headers := [''x-a'' \<mapsto> ''1'']\<rparr>)"
proof -
  have v: "\<not> testHeaderValidity ''X-A''"
    by (simp add: testHeaderValidity_def token_char_def)
  have e: "DummyJSONParser echo_externals ''1'' () = Inr ''1''"
    by (simp add: echo_externals_def)
  have s: "stored_value ''X-A'' ''1'' = ''1''" "lower ''X-A'' = ''x-a''"
    by code_simp+
  have c: "\<not> list_ex invalid_header_char ''1''"
    by (simp add: invalid_header_char_def)
  have A: "setHeaders (DummyJSONParser echo_externals)
     [\<lparr>key = Some ''X-A'', val = Some ''1''\<rparr>, \<lparr>key = Some ''X-B'', val = Some []\<rparr>]
     () fresh_response
   = setHeaders (DummyJSONParser echo_externals)
       [\<lparr>key = Some ''X-A'', val = Some ''1''\<rparr>] () fresh_response"
    using empty_header_value_skipped [of "\<lparr>key = Some ''X-B'', val = Some []\<rparr>"
        "DummyJSONParser echo_externals" "[\<lparr>key = Some ''X-A'', val = Some ''1''\<rparr>]" "[]"
        "()" fresh_response "''X-B''" "''1''" "''1''"]
    by simp
  have B: "setHeaders (DummyJSONParser echo_externals)
       [\<lparr>key = Some ''X-A'', val = Some ''1''\<rparr>] () fresh_response
     = Inr (fresh_response\<lparr>res_headers := [''x-a'' \<mapsto> ''1'']\<rparr>)"
    using v e s c
      empty_header_value_skipped [of "\<lparr>key = Some ''X-A'', val = Some ''1''\<rparr>"
        "DummyJSONParser echo_externals" "[]" "[]" "()" fresh_response "''X-A''" "''1''" "''1''"]
    by (auto simp: fresh_response_def)
  show ?thesis using A B by simp
qed

section \<open>Stopping\<close>

text \<open>
  Claim C8. Stopping an environment that has no registered instance changes nothing.
  Stopping one that has an instance kills that instance, removes it from the instance
  map (leaving the other environments' instances alone), and posts the status
  \<^verbatim>\<open>running = false, needRestart = false\<close>; a second stop is then a no-op.
\<close>

theorem stop_effect:
  "(instances svc u = None \<longrightarrow> stop u svc = svc)
   \<and> (instances svc u = Some i \<longrightarrow>
        instances (stop u svc) = (instances svc)(u := None)
        \<and> killed (stop u svc) = killed svc @ [i]
        \<and> store_updates (stop u svc) = store_updates svc @ [UPDATE_ENVIRONMENT_STATUS False False]
        \<and> stop u (stop u svc) = stop u svc)"
  by (simp add: stop_def)

theorem stop_effect_witness:
  "stop ''e2'' \<lparr>instances = [''e1'' \<mapsto> (1::nat)], killed = [], store_updates = []\<rparr>
     = \<lparr>instances = [''e1'' \<mapsto> 1], killed = [], store_updates = []\<rparr>
   \<and> instances (stop ''e1'' \<lparr>instances = [''e1'' \<mapsto> (1::nat)], killed = [], store_updates = []\<rparr>)
        ''e1'' = None
   \<and> killed (stop ''e1'' \<lparr>instances = [''e1'' \<mapsto> (1::nat)], killed = [], store_updates = []\<rparr>)
        = [1]
   \<and> store_updates (stop ''e1'' \<lparr>instances = [''e1'' \<mapsto> (1::nat)], killed = [], store_updates = []\<rparr>)
        = [UPDATE_ENVIRONMENT_STATUS False False]"
  using stop_effect [of "\<lparr>instances = [''e1'' \<mapsto> (1::nat)], killed = [], store_updates = []\<rparr>"
           "''e2''" 1]
        stop_effect [of "\<lparr>instances = [''e1'' \<mapsto> (1::nat)], killed = [], store_updates = []\<rparr>"
           "''e1''" 1]
  by simp

section \<open>The request log is bounded\<close>

lemma buffer_of_log_request:
  "buffer_of (log_request cap fmt u req logs) u
     = fmt req # (if cap \<le> length (buffer_of logs u) then butlast (buffer_of logs u)
                  else buffer_of logs u)"
  by (simp add: log_request_def buffer_of_def Let_def)

lemma buffer_of_log_request_other:
  "u' \<noteq> u \<Longrightarrow> buffer_of (log_request cap fmt u req logs) u' = buffer_of logs u'"
  by (simp add: log_request_def buffer_of_def Let_def)

lemma log_request_take:
  assumes "0 < cap" and "length (buffer_of logs u) \<le> cap"
  shows "buffer_of (log_request cap fmt u req logs) u = take cap (fmt req # buffer_of logs u)"
proof (cases "cap \<le> length (buffer_of logs u)")
  case True
  then have "length (buffer_of logs u) = cap" using assms(2) by simp
  then have "butlast (buffer_of logs u) = take (cap - 1) (buffer_of logs u)"
    by (simp add: butlast_conv_take)
  then show ?thesis using True assms(1)
    by (cases cap) (simp_all add: buffer_of_log_request)
next
  case False
  then show ?thesis using assms(1)
    by (cases cap) (simp_all add: buffer_of_log_request)
qed

lemma take_append_take: "take n (xs @ take n ys) = take n (xs @ ys)"
  by (simp add: min_def)

lemma log_requests_take:
  assumes "0 < cap"
  shows "length (buffer_of logs u) \<le> cap
     \<Longrightarrow> buffer_of (log_requests cap fmt u reqs logs) u
           = take cap (rev (map fmt reqs) @ buffer_of logs u)"
proof (induction reqs arbitrary: logs)
  case Nil
  then show ?case by (simp add: log_requests_def)
next
  case (Cons r reqs)
  have step: "buffer_of (log_request cap fmt u r logs) u = take cap (fmt r # buffer_of logs u)"
    using assms Cons.prems by (rule log_request_take)
  then have len: "length (buffer_of (log_request cap fmt u r logs) u) \<le> cap" by simp
  have "buffer_of (log_requests cap fmt u (r # reqs) logs) u
          = buffer_of (log_requests cap fmt u reqs (log_request cap fmt u r logs)) u"
    by (simp add: log_requests_def)
  also have "\<dots> = take cap (rev (map fmt reqs) @ take cap (fmt r # buffer_of logs u))"
    using Cons.IH [OF len] step by simp
  also have "\<dots> = take cap (rev (map fmt reqs) @ fmt r # buffer_of logs u)"
    by (rule take_append_take)
  finally show ?case by simp
qed

text \<open>
  The capacity has to be positive for the bound: the entry is put in front after the
  \<^verbatim>\<open>pop\<close>, so with a capacity of zero the buffer holds one entry.
\<close>

lemma log_request_capacity_zero:
  "buffer_of (log_request 0 fmt u req logs) u = fmt req # butlast (buffer_of logs u)"
  by (simp add: buffer_of_log_request)

text \<open>
  Claim C2. With a capacity of at least one entry, a buffer within the capacity stays
  within it at every request: the middleware drops the last (oldest) entry when the
  buffer is full and puts the new entry in front. Starting from an empty buffer, after
  \<open>capacity + 1\<close> requests the buffer holds the entries of all requests but the first,
  newest first: its head is the entry of the latest request, and the entry of the first
  request is gone (it occurs nowhere when the entries differ from one another).
\<close>

theorem log_buffer_bounded:
  assumes "0 < cap" and "length (buffer_of logs u) \<le> cap"
  shows "buffer_of (log_request cap fmt u req logs) u
           = fmt req # (if cap \<le> length (buffer_of logs u) then butlast (buffer_of logs u)
                        else buffer_of logs u)
       \<and> length (buffer_of (log_request cap fmt u req logs) u) \<le> cap
       \<and> length (buffer_of (log_requests cap fmt u reqs logs) u) \<le> cap
       \<and> (buffer_of logs u = [] \<and> length reqs = cap + 1 \<longrightarrow>
            buffer_of (log_requests cap fmt u reqs logs) u = rev (map fmt (tl reqs))
            \<and> hd (buffer_of (log_requests cap fmt u reqs logs) u) = fmt (last reqs)
            \<and> (distinct (map fmt reqs) \<longrightarrow>
                 fmt (hd reqs) \<notin> set (buffer_of (log_requests cap fmt u reqs logs) u)))"
proof -
  have a: "length (buffer_of (log_request cap fmt u req logs) u) \<le> cap"
    using log_request_take [OF assms, of fmt req] by simp
  have b: "length (buffer_of (log_requests cap fmt u reqs logs) u) \<le> cap"
    using log_requests_take [OF assms, of fmt reqs] by simp
  have c: "buffer_of (log_requests cap fmt u reqs logs) u = rev (map fmt (tl reqs))
            \<and> hd (buffer_of (log_requests cap fmt u reqs logs) u) = fmt (last reqs)
            \<and> (distinct (map fmt reqs) \<longrightarrow>
                 fmt (hd reqs) \<notin> set (buffer_of (log_requests cap fmt u reqs logs) u))"
    if empty: "buffer_of logs u = []" and n: "length reqs = cap + 1"
  proof -
    obtain r rs where reqs: "reqs = r # rs" using n by (cases reqs) auto
    have rs: "length rs = cap" "rs \<noteq> []" using n reqs assms(1) by auto
    have buf: "buffer_of (log_requests cap fmt u reqs logs) u = rev (map fmt rs)"
      using log_requests_take [OF assms, of fmt reqs] empty reqs rs by simp
    have "hd (rev (map fmt rs)) = fmt (last rs)"
      using rs(2) by (simp add: hd_rev last_map)
    then show ?thesis using buf reqs rs(2) by auto
  qed
  have d: "buffer_of (log_request cap fmt u req logs) u
           = fmt req # (if cap \<le> length (buffer_of logs u) then butlast (buffer_of logs u)
                        else buffer_of logs u)"
    by (rule buffer_of_log_request)
  show ?thesis using a b c d by blast
qed

theorem log_buffer_bounded_witness:
  "(0::nat) < 2
   \<and> buffer_of (log_requests 2 (\<lambda>n::nat. n) ''e1'' [1, 2, 3] Map.empty) ''e1'' = [3, 2]
   \<and> length (buffer_of (log_requests 2 (\<lambda>n::nat. n) ''e1'' [1, 2, 3] Map.empty) ''e1'') \<le> 2
   \<and> 1 \<notin> set (buffer_of (log_requests 2 (\<lambda>n::nat. n) ''e1'' [1, 2, 3] Map.empty) ''e1'')"
proof -
  have h1: "(0::nat) < 2" by simp
  have h2: "length (buffer_of (Map.empty :: string \<rightharpoonup> nat list) ''e1'') \<le> 2"
    by (simp add: buffer_of_def)
  show ?thesis
    using log_buffer_bounded [OF h1 h2, of "\<lambda>n::nat. n" 4 "[1, 2, 3]"]
    by (simp add: buffer_of_def)
qed

section \<open>What is registered on the server\<close>

lemma registered_routes_append:
  "registered_routes (xs @ ys) = registered_routes xs @ registered_routes ys"
  by (induction xs rule: registered_routes.induct) simp_all

lemma proxy_targets_append:
  "proxy_targets (xs @ ys) = proxy_targets xs @ proxy_targets ys"
  by (induction xs rule: proxy_targets.induct) simp_all

lemma fst_add_route:
  "fst (add_route reg errs env r st) = fst st @ route_layers reg env [r]"
  by (cases st) (simp add: add_route_def route_layers_def split: option.splits)

lemma fst_fold_add_route:
  "fst (fold (add_route reg errs env) rs st) = fst st @ route_layers reg env rs"
proof (induction rs arbitrary: st)
  case Nil
  show ?case by (simp add: route_layers_def)
next
  case (Cons r rs)
  have "route_layers reg env (r # rs) = route_layers reg env [r] @ (route_layers reg env rs :: 'a layer list)"
    by (simp add: route_layers_def)
  then show ?case using Cons [of "add_route reg errs env r st"]
    by (simp add: fst_add_route)
qed

lemma fst_setRoutes:
  "fst (setRoutes reg errs (server, alerts) env) = server @ route_layers reg env (routes env)"
  by (simp add: setRoutes_def fst_fold_add_route)

lemma registered_route_layers:
  "registered_routes (route_layers reg env rs :: 'm layer list)
     = filter (\<lambda>r. route.duplicates r = [] \<and> reg (route_method r) (route_path env r) = None) rs"
  by (induction rs) (simp_all add: route_layers_def)

lemma proxy_route_layers: "proxy_targets (route_layers reg env rs) = []"
  by (induction rs) (simp_all add: route_layers_def)

lemma registered_middlewares:
  "registered_routes (map (\<lambda>m. Use None (ExpressMiddleware m)) mws) = []"
  by (induction mws) simp_all

lemma proxy_middlewares:
  "proxy_targets (map (\<lambda>m. Use None (ExpressMiddleware m)) mws) = []"
  by (induction mws) simp_all

lemma fst_start_layers:
  "fst (start_layers reg errs U mws env alerts)
     = enableProxy U
         (setCors (map (\<lambda>m. Use None (ExpressMiddleware m)) mws
                    @ [Use None (LogRequests (uuid env)), Use None (EnvironmentLatency (uuid env))]
                    @ route_layers reg env (routes env)) env) env"
proof -
  obtain s a where sa: "setRoutes reg errs
      (setEnvironmentLatency (logRequests (map (\<lambda>m. Use None (ExpressMiddleware m)) mws) env) (uuid env), alerts) env = (s, a)"
    by (cases "setRoutes reg errs
      (setEnvironmentLatency (logRequests (map (\<lambda>m. Use None (ExpressMiddleware m)) mws) env) (uuid env), alerts) env") 
  have "s = fst (setRoutes reg errs
      (setEnvironmentLatency (logRequests (map (\<lambda>m. Use None (ExpressMiddleware m)) mws) env) (uuid env), alerts) env)"
    using sa by simp
  then have "s = map (\<lambda>m. Use None (ExpressMiddleware m)) mws
                    @ [Use None (LogRequests (uuid env)), Use None (EnvironmentLatency (uuid env))]
                    @ route_layers reg env (routes env)"
    by (simp add: fst_setRoutes logRequests_def setEnvironmentLatency_def)
  then show ?thesis using sa by (simp add: start_layers_def Let_def)
qed

lemma registered_start_layers:
  "registered_routes (fst (start_layers reg errs U mws env alerts))
     = filter (\<lambda>r. route.duplicates r = [] \<and> reg (route_method r) (route_path env r) = None)
         (routes env)"
  by (simp add: fst_start_layers enableProxy_def setCors_def registered_routes_append
        registered_middlewares registered_route_layers)

lemma proxy_start_layers:
  "proxy_targets (fst (start_layers reg errs U mws env alerts))
     = (if proxyMode env \<and> proxyHost env \<noteq> [] \<and> isValidURL U (proxyHost env)
        then [proxyHost env] else [])"
  by (simp add: fst_start_layers enableProxy_def setCors_def proxy_targets_append
        proxy_middlewares proxy_route_layers)

lemma no_space_escaped: "CHR '' '' \<notin> set (replace_spaces s)"
  by (induction s) (simp_all add: replace_spaces_def)

lemma replace_spaces_append:
  "replace_spaces (a @ b) = replace_spaces a @ replace_spaces b"
  by (simp add: replace_spaces_def)

lemma replace_spaces_id: "CHR '' '' \<notin> set s \<Longrightarrow> replace_spaces s = s"
  by (induction s) (auto simp: replace_spaces_def)

lemma space_in_route_path:
  "CHR '' '' \<in> set (route_path env r) \<longleftrightarrow> CHR '' '' \<in> set (endpointPrefix env)"
  using no_space_escaped [of "endpoint r"] by (auto simp: route_path_def)

lemma url_parse_example: "url_parse ''https://example.com'' = Accepted"
  by code_simp

lemma url_parse_not_a_url: "url_parse ''not-a-url'' = Rejected"
  by code_simp

lemma conforms_strict_URL: "conforms strict_URL"
  by (simp add: conforms_def strict_URL_def)

lemma route_layer_mem:
  "Verb m p (RouteHandler e r) \<in> set (route_layers reg env rs :: 'm layer list)
     \<longleftrightarrow> r \<in> set rs \<and> route.duplicates r = [] \<and> reg (route_method r) (route_path env r) = None
         \<and> e = env \<and> m = route_method r \<and> p = route_path env r"
  by (auto simp: route_layers_def)

lemma route_layer_start:
  "Verb m p (RouteHandler e r) \<in> set (fst (start_layers reg errs U (mws :: 'm list) env alerts))
     \<longleftrightarrow> Verb m p (RouteHandler e r) \<in> set (route_layers reg env (routes env) :: 'm layer list)"
  by (auto simp: fst_start_layers enableProxy_def setCors_def)

text \<open>
  Claim C1. The routes that get a handler, on the server \<^verbatim>\<open>start\<close> builds as on any
  server \<^verbatim>\<open>setRoutes\<close> is applied to, are the routes of the environment with an empty
  duplicates list (whose path the router accepts), in their order. A route with a
  non-empty duplicates list has no handler, so nothing serves its body or status code.
\<close>

theorem duplicated_routes_inert:
  "registered_routes (fst (setRoutes reg errs (server, alerts) env))
     = registered_routes server
       @ filter (\<lambda>r. route.duplicates r = [] \<and> reg (route_method r) (route_path env r) = None)
           (routes env)
   \<and> registered_routes (fst (start_layers reg errs U mws env alerts))
     = filter (\<lambda>r. route.duplicates r = [] \<and> reg (route_method r) (route_path env r) = None)
         (routes env)
   \<and> (route.duplicates r \<noteq> [] \<longrightarrow>
        r \<notin> set (registered_routes (fst (start_layers reg errs U mws env alerts)))
        \<and> Verb m p (RouteHandler e r) \<notin> set (fst (start_layers reg errs U mws env alerts)))
   \<and> (r \<in> set (routes env) \<and> route.duplicates r = []
        \<and> reg (route_method r) (route_path env r) = None \<longrightarrow>
        r \<in> set (registered_routes (fst (start_layers reg errs U mws env alerts))))"
  by (simp add: fst_setRoutes registered_routes_append registered_route_layers
        registered_start_layers route_layer_start route_layer_mem)

theorem duplicated_routes_inert_witness:
  "registered_routes (fst (start_layers (\<lambda>m p. None) (Errors echo_externals) strict_URL
       ([] :: nat list)
       (sample_environment\<lparr>routes :=
          [sample_route, sample_route\<lparr>route.duplicates := [0], body := ''twice''\<rparr>]\<rparr>) []))
     = [sample_route]
   \<and> sample_route\<lparr>route.duplicates := [0], body := ''twice''\<rparr>
       \<notin> set (registered_routes (fst (start_layers (\<lambda>m p. None) (Errors echo_externals)
            strict_URL ([] :: nat list)
            (sample_environment\<lparr>routes :=
               [sample_route, sample_route\<lparr>route.duplicates := [0], body := ''twice''\<rparr>]\<rparr>) [])))"
  using duplicated_routes_inert [of "\<lambda>m p. None" "Errors echo_externals" "[] :: nat layer list"
      "[]" "sample_environment\<lparr>routes :=
          [sample_route, sample_route\<lparr>route.duplicates := [0], body := ''twice''\<rparr>]\<rparr>"
      strict_URL "[] :: nat list"
      "sample_route\<lparr>route.duplicates := [0], body := ''twice''\<rparr>"]
  by (simp add: sample_route_def)
text \<open>
  Claim C9: what the code does with a space in the prefix. The spaces of the endpoint
  are replaced by \<^verbatim>\<open>%20\<close>, those of the prefix are not: with the prefix
  \<^verbatim>\<open>my api\<close> the route is registered at a path that holds a literal space, while a
  space in the endpoint is escaped.
\<close>

theorem prefix_space_not_escaped:
  "route_path (sample_environment\<lparr>endpointPrefix := ''my api''\<rparr>) sample_route
     = ''/my api/users''
   \<and> CHR '' '' \<in> set (route_path (sample_environment\<lparr>endpointPrefix := ''my api''\<rparr>)
                       sample_route)
   \<and> Verb ''get'' ''/my api/users''
        (RouteHandler (sample_environment\<lparr>endpointPrefix := ''my api'', routes := [sample_route]\<rparr>)
           sample_route)
       \<in> set (fst (start_layers (\<lambda>m p. None) (Errors echo_externals) strict_URL ([] :: nat list)
            (sample_environment\<lparr>endpointPrefix := ''my api'', routes := [sample_route]\<rparr>) []))
   \<and> route_path sample_environment (sample_route\<lparr>endpoint := ''all users''\<rparr>)
       = ''/all%20users''"
  by (simp add: route_layer_start route_layer_mem route_path_def sample_environment_def
        sample_route_def replace_spaces_def)

text \<open>
  Claim C7. A proxy handler is registered exactly when proxy mode is on, a host is
  configured and \<^verbatim>\<open>isValidURL\<close> accepts it, and then for that host; when the
  constructor throws on the configured host, \<^verbatim>\<open>enableProxy\<close> returns the server as it
  was (it has no other effect and cannot throw). With a constructor that conforms to
  the URL parser, \<^verbatim>\<open>isValidURL\<close> accepts \<^verbatim>\<open>https://example.com\<close> and refuses
  \<^verbatim>\<open>not-a-url\<close>.
\<close>

theorem proxy_registered_iff_valid:
  "proxy_targets (enableProxy U server env)
     = proxy_targets server
       @ (if proxyMode env \<and> proxyHost env \<noteq> [] \<and> isValidURL U (proxyHost env)
          then [proxyHost env] else [])
   \<and> (proxy_targets (fst (start_layers reg errs U mws env alerts)) \<noteq> []
        \<longleftrightarrow> proxyMode env \<and> proxyHost env \<noteq> [] \<and> isValidURL U (proxyHost env))
   \<and> (isl (U (proxyHost env)) \<longrightarrow> enableProxy U server env = server)
   \<and> (conforms U \<longrightarrow> isValidURL U ''https://example.com'' \<and> \<not> isValidURL U ''not-a-url'')"
proof -
  have a: "proxy_targets (enableProxy U server env)
     = proxy_targets server
       @ (if proxyMode env \<and> proxyHost env \<noteq> [] \<and> isValidURL U (proxyHost env)
          then [proxyHost env] else [])"
    by (simp add: enableProxy_def proxy_targets_append)
  have b: "proxy_targets (fst (start_layers reg errs U mws env alerts)) \<noteq> []
        \<longleftrightarrow> proxyMode env \<and> proxyHost env \<noteq> [] \<and> isValidURL U (proxyHost env)"
    by (simp add: proxy_start_layers)
  have c: "isl (U (proxyHost env)) \<longrightarrow> enableProxy U server env = server"
    by (cases "U (proxyHost env)") (simp_all add: enableProxy_def isValidURL_def)
  have valid: "\<And>address. isValidURL U address \<longleftrightarrow> \<not> isl (U address)"
    by (simp add: isValidURL_def split: sum.splits)
  have d: "conforms U \<longrightarrow> isValidURL U ''https://example.com'' \<and> \<not> isValidURL U ''not-a-url''"
    using url_parse_example url_parse_not_a_url by (auto simp: conforms_def valid)
  show ?thesis using a b c d by blast
qed

theorem proxy_registered_iff_valid_witness:
  "isl (strict_URL ''not-a-url'')
   \<and> enableProxy strict_URL ([] :: nat layer list)
        (sample_environment\<lparr>proxyMode := True, proxyHost := ''not-a-url''\<rparr>) = []
   \<and> proxy_targets (enableProxy strict_URL ([] :: nat layer list)
        (sample_environment\<lparr>proxyMode := True, proxyHost := ''https://example.com''\<rparr>))
       = [''https://example.com'']
   \<and> isValidURL strict_URL ''https://example.com'' \<and> \<not> isValidURL strict_URL ''not-a-url''"
proof -
  have h1: "isl (strict_URL ''not-a-url'')"
    by (simp add: strict_URL_def url_parse_not_a_url)
  have h2: "conforms strict_URL" by (rule conforms_strict_URL)
  show ?thesis
    using h1 h2
      proxy_registered_iff_valid [of strict_URL "[] :: nat layer list"
        "sample_environment\<lparr>proxyMode := True, proxyHost := ''not-a-url''\<rparr>"
        "\<lambda>m p. None" "Errors echo_externals" "[] :: nat list" "[]"]
      proxy_registered_iff_valid [of strict_URL "[] :: nat layer list"
        "sample_environment\<lparr>proxyMode := True, proxyHost := ''https://example.com''\<rparr>"
        "\<lambda>m p. None" "Errors echo_externals" "[] :: nat list" "[]"]
    by (simp add: sample_environment_def)
qed

section \<open>The response of a route\<close>

lemma json_catch_unclassified:
  assumes "indexOf (message e) ''Unexpected token'' = - 1"
    and "indexOf (message e) ''Parse error'' = - 1"
    and "indexOf (message e) ''Missing helper'' = - 1"
  shows "json_catch ext req e res alerts = Completed (res_end res) alerts"
  using assms by (simp add: json_catch_def end_catch_def)

lemma serve_json_parse_error:
  assumes "DummyJSONParser ext (body route) req = Inr rendered"
    and "JSON_parse ext rendered = Inl e"
  shows "serve_json ext route req res alerts = json_catch ext req e res alerts"
  using assms by (simp add: serve_json_def json_try_def)




text \<open>
  Claim C5: what the code does on a malformed body. A route with the content type
  \<^verbatim>\<open>application/json\<close> whose rendered body ends too early makes the parser throw
  \<^verbatim>\<open>Unexpected end of JSON input\<close>; the message matches none of the texts the
  \<^verbatim>\<open>catch\<close> block looks for, so the response is ended with no body, no plain-text
  content type and no alert.
\<close>

theorem truncated_json_not_reported:
  "route_handler json_externals sample_environment (sample_route\<lparr>body := ''[1,''\<rparr>) ()
     fresh_response []
   = Completed (res_end fresh_response) []"
proof -
  let ?route = "sample_route\<lparr>body := ''[1,''\<rparr>"
  let ?e = "JsError None ''Unexpected end of JSON input''"
  have hs: "headers_applied json_externals sample_environment ?route () fresh_response
              = Inr fresh_response"
    by (simp add: headers_applied_def sample_environment_def sample_route_def res_status_def
          fresh_response_def)
  have "route_handler json_externals sample_environment ?route () fresh_response []
          = serve_json json_externals ?route () fresh_response []"
    using route_handler_cases [of json_externals sample_environment ?route "()" fresh_response "[]"]
      hs
    by (simp add: sample_route_def json_externals_def)
  also have "\<dots> = json_catch json_externals () ?e fresh_response []"
    by (rule serve_json_parse_error [of _ _ _ "''[1,''"])
       (simp_all add: json_externals_def echo_externals_def sample_route_def)
  also have "\<dots> = Completed (res_end fresh_response) []"
    by (rule json_catch_unclassified) (simp_all add: indexOf_def)
  finally show ?thesis .
qed

text \<open>
  Claim C6: what the code does with a templated file path. The path
  \<^verbatim>\<open>data.{{ext}}\<close> renders to \<^verbatim>\<open>data.txt\<close>, and that file is read and served; its
  mime type \<^verbatim>\<open>text/plain\<close> is one with templating. The mime type is looked up from
  the path as configured, though, where the table knows no type: the file's text is not
  run through the renderer but sent as the buffer read, its placeholder left in, under
  the content type \<^verbatim>\<open>false\<close>.
\<close>

theorem templated_path_served_raw:
  "DummyJSONParser templated_externals ''data.{{ext}}'' () = Inr ''data.txt''
   \<and> readFileSync templated_externals ''data.txt'' = Inr ''type {{ext}}''
   \<and> mimeTypes_lookup templated_externals ''data.txt'' = Some ''text/plain''
   \<and> with_templating templated_externals (Some ''text/plain'')
   \<and> DummyJSONParser templated_externals ''type {{ext}}'' () = Inr ''type txt''
   \<and> mimeTypes_lookup templated_externals ''data.{{ext}}'' = None
   \<and> sent (outcome_response
        (route_handler templated_externals sample_environment
           (sample_route\<lparr>filePath := ''data.{{ext}}'', sendFileAsBody := True\<rparr>) ()
           fresh_response []))
       = Some (Buffer ''type {{ext}}'')
   \<and> res_headers (outcome_response
        (route_handler templated_externals sample_environment
           (sample_route\<lparr>filePath := ''data.{{ext}}'', sendFileAsBody := True\<rparr>) ()
           fresh_response [])) ''content-type''
       = Some ''false''"
  by code_simp

end
